theory Spec2Isabelle
  imports Main "HOL-Library.List_Lexorder" "HOL-Library.Char_ord"
begin

section \<open>Strings\<close>

text \<open>
  A Python \<open>str\<close> is modelled as a \<open>string\<close>; a
  \<open>char\<close> stands for a code point below 256. \<open>is_space\<close> lists the
  code points of that range that \<open>str.strip()\<close> removes (those for which
  \<open>str.isspace()\<close> holds).
\<close>

definition is_space :: "char \<Rightarrow> bool" where
  "is_space c = (c \<in> set [CHR 0x09, CHR 0x0A, CHR 0x0B, CHR 0x0C, CHR 0x0D,
                          CHR 0x1C, CHR 0x1D, CHR 0x1E, CHR 0x1F, CHR 0x20,
                          CHR 0x85, CHR 0xA0])"

definition strip :: "string \<Rightarrow> string" where
  "strip s = rev (dropWhile is_space (rev (dropWhile is_space s)))"

text \<open>\<open>name.replace(char, '_')\<close> for a one-character \<open>char\<close>.\<close>

definition replace_char :: "string \<Rightarrow> char \<Rightarrow> char \<Rightarrow> string" where
  "replace_char name old new = map (\<lambda>c. if c = old then new else c) name"

text \<open>The constant \<open>invalid_chars = '<>:"/\\|?*'\<close> of \<open>sanitize_filename\<close>.\<close>

definition invalid_chars :: string where
  "invalid_chars = [CHR ''<'', CHR ''>'', CHR '':'', CHR 0x22, CHR ''/'', CHR 0x5C,
                    CHR ''|'', CHR ''?'', CHR ''*'']"

text \<open>
  \<open>sanitize_filename\<close> (the same body in \<open>N8NWorkflowDownloader\<close>
  and \<open>N8NBackup\<close>): the loop over \<open>invalid_chars\<close> is the
  \<open>foldl\<close>, then \<open>name.strip()\<close>.
\<close>

definition sanitize_filename :: "string \<Rightarrow> string" where
  "sanitize_filename name =
     strip (foldl (\<lambda>n char. replace_char n char CHR ''_'') name invalid_chars)"

section \<open>Entities of the export path\<close>

text \<open>
  The dictionaries of the listing endpoint, with the keys the code reads. A key read with
  \<open>.get(key, default)\<close> is an \<open>option\<close> field
  (\<open>None\<close>: the key is missing); \<open>workflow['id']\<close> raises
  \<open>KeyError\<close> on a missing key, so \<open>wf_id\<close> is an option too.
\<close>

record tag =
  tag_name :: "string option"

record workflow =
  wf_id :: "string option"
  wf_name :: "string option"
  isArchived :: "bool option"
  tags :: "tag list option"

text \<open>The detail payload, as far as \<open>get_workflow_project\<close> reads it.\<close>

record project =
  p_name :: "string option"
  p_type :: "string option"

record share =
  s_project :: "project option"

record detail =
  shared :: "share list option"

datatype py_error = KeyError | TypeError | AttributeError

datatype detail_response = DetailFailed | DetailOk detail

section \<open>Hierarchy organizer\<close>

text \<open>
  \<open>get_workflow_details\<close>: one GET per id; a \<open>RequestException\<close>
  gives \<open>None\<close>. The organizer only reads the detail endpoint, whose answers
  are a parameter here: a function of the requested id.
\<close>

definition get_workflow_details :: "(string \<Rightarrow> detail_response) \<Rightarrow> string \<Rightarrow> detail option" where
  "get_workflow_details api_detail workflow_id =
     (case api_detail workflow_id of DetailFailed \<Rightarrow> None | DetailOk d \<Rightarrow> Some d)"

text \<open>
  \<open>get_workflow_project\<close>. An empty payload \<open>{}\<close> (falsy in
  Python) has no \<open>shared\<close> key, so it takes the \<open>None\<close> branch of
  \<open>shared\<close> and yields the same default.
\<close>

definition get_workflow_project :: "(string \<Rightarrow> detail_response) \<Rightarrow> string \<Rightarrow> string" where
  "get_workflow_project api_detail workflow_id =
     (case get_workflow_details api_detail workflow_id of
        None \<Rightarrow> ''Unknown Project''
      | Some workflow_data \<Rightarrow>
          (case (case shared workflow_data of None \<Rightarrow> [] | Some s \<Rightarrow> s) of
             [] \<Rightarrow> ''Unknown Project''
           | s0 # _ \<Rightarrow>
               (let proj = (case s_project s0 of None \<Rightarrow> \<lparr>p_name = None, p_type = None\<rparr> | Some p \<Rightarrow> p);
                    project_name = (case p_name proj of None \<Rightarrow> ''Unknown Project'' | Some n \<Rightarrow> n);
                    project_type = (case p_type proj of None \<Rightarrow> [] | Some t \<Rightarrow> t)
                in if project_type = ''personal'' \<and> CHR ''<'' \<in> set project_name
                   then strip (takeWhile (\<lambda>c. c \<noteq> CHR ''<'') project_name)
                   else project_name)))"

text \<open>
  The \<open>organized\<close> dictionary: keys in insertion order, each with its list of workflows.
  \<open>add_to_folder\<close> is
  \<^verbatim>\<open>if folder_path not in organized: organized[folder_path] = []\<close> followed by
  \<^verbatim>\<open>organized[folder_path].append(workflow)\<close>.
\<close>

type_synonym organized = "(string \<times> workflow list) list"

definition bucket :: "organized \<Rightarrow> string \<Rightarrow> workflow list" where
  "bucket org folder_path = (case map_of org folder_path of None \<Rightarrow> [] | Some ws \<Rightarrow> ws)"

definition add_to_folder :: "string \<Rightarrow> workflow \<Rightarrow> organized \<Rightarrow> organized" where
  "add_to_folder folder_path w org =
     (let org' = (if folder_path \<in> set (map fst org) then org else org @ [(folder_path, [])])
      in map (\<lambda>(k, ws). if k = folder_path then (k, ws @ [w]) else (k, ws)) org')"

text \<open>\<open>tag.get('name', 'Untagged')\<close>: the default applies to a missing key only.\<close>

definition tag_label :: "tag \<Rightarrow> string" where
  "tag_label t = (case tag_name t of None \<Rightarrow> ''Untagged'' | Some n \<Rightarrow> n)"

text \<open>The inner loop \<open>for tag in tags\<close>.\<close>

fun add_tags :: "string \<Rightarrow> workflow \<Rightarrow> tag list \<Rightarrow> organized \<Rightarrow> organized" where
  "add_tags project_name_safe w [] org = org"
| "add_tags project_name_safe w (t # ts) org =
     add_tags project_name_safe w ts
       (add_to_folder (project_name_safe @ ''/'' @ sanitize_filename (tag_label t)) w org)"

text \<open>The body of the outer loop \<open>for workflow in active_workflows\<close>.\<close>

definition organize_workflow ::
  "(string \<Rightarrow> detail_response) \<Rightarrow> workflow \<Rightarrow> organized \<Rightarrow> py_error + organized" where
  "organize_workflow api_detail w org =
     (case wf_id w of
        None \<Rightarrow> Inl KeyError
      | Some workflow_id \<Rightarrow>
          (let project_name = get_workflow_project api_detail workflow_id;
               project_name_safe = sanitize_filename project_name;
               tgs = (case tags w of None \<Rightarrow> [] | Some ts \<Rightarrow> ts)
           in if tgs \<noteq> []
              then Inr (add_tags project_name_safe w tgs org)
              else Inr (add_to_folder (project_name_safe @ ''/No Tag'') w org)))"

fun organize_loop ::
  "(string \<Rightarrow> detail_response) \<Rightarrow> workflow list \<Rightarrow> organized \<Rightarrow> py_error + organized" where
  "organize_loop api_detail [] org = Inr org"
| "organize_loop api_detail (w # ws) org =
     (case organize_workflow api_detail w org of
        Inl e \<Rightarrow> Inl e
      | Inr org' \<Rightarrow> organize_loop api_detail ws org')"

text \<open>\<open>w.get('isArchived', False)\<close>.\<close>

definition is_archived :: "workflow \<Rightarrow> bool" where
  "is_archived w = (case isArchived w of None \<Rightarrow> False | Some b \<Rightarrow> b)"

text \<open>
  \<open>N8NWorkflowDownloader.organize_by_tags\<close>;
  \<open>N8NBackup.organize_by_folders\<close> has the same body.
\<close>

definition organize_by_tags ::
  "(string \<Rightarrow> detail_response) \<Rightarrow> workflow list \<Rightarrow> py_error + organized" where
  "organize_by_tags api_detail workflow_list =
     (let active_workflows = filter (\<lambda>w. \<not> is_archived w) workflow_list
      in organize_loop api_detail active_workflows [])"

definition organize_by_folders ::
  "(string \<Rightarrow> detail_response) \<Rightarrow> workflow list \<Rightarrow> py_error + organized" where
  "organize_by_folders = organize_by_tags"

text \<open>
  The calls \<open>download_workflow(workflow, folder_path, backup_dir)\<close> that
  \<open>download_all\<close> (and \<open>N8NBackup.run\<close>) make, in order: the only
  place where an entity's file is written.
\<close>

definition download_jobs :: "organized \<Rightarrow> (string \<times> workflow) list" where
  "download_jobs org = concat (map (\<lambda>(folder_path, workflow_list). map (Pair folder_path) workflow_list) org)"

section \<open>The remote API\<close>

text \<open>
  The HTTP session is outside the code modelled here: it is a parameter, a record of
  handlers over a remote state \<open>'r\<close> that the model does not look into. A
  response is what the code distinguishes: a raised \<open>RequestException\<close>, or
  the fields it reads from the JSON body. \<open>api_clock\<close> is
  \<open>datetime.now().strftime('%Y%m%d_%H%M%S')\<close>.
\<close>

datatype json =
    JNull
  | JBool bool
  | JNum int
  | JStr string
  | JArr "json list"
  | JObj "(string \<times> json) list"

record params =
  p_limit :: nat
  p_cursor :: "string option"

datatype get_response = GetFailed | GetPage "workflow list option" "string option"

datatype post_response = PostFailed | PostOk "string option"

datatype put_response = PutFailed | PutOk

record 'r api =
  api_get :: "'r \<Rightarrow> params \<Rightarrow> get_response \<times> 'r"
  api_post :: "'r \<Rightarrow> json \<Rightarrow> post_response \<times> 'r"
  api_put :: "'r \<Rightarrow> string \<Rightarrow> json \<Rightarrow> put_response \<times> 'r"
  api_clock :: "'r \<Rightarrow> string"

text \<open>
  Every request the code issues is recorded, with its response, in the order of issue.
  The code issues GET, POST and PUT requests only.
\<close>

datatype event =
    GetEv params get_response
  | PostEv json post_response
  | PutEv string json put_response

record 'r world =
  remote :: 'r
  trace :: "event list"

definition session_get :: "'r api \<Rightarrow> 'r world \<Rightarrow> params \<Rightarrow> get_response \<times> 'r world" where
  "session_get A w ps =
     (let (resp, r') = api_get A (remote w) ps
      in (resp, \<lparr>remote = r', trace = trace w @ [GetEv ps resp]\<rparr>))"

definition session_post :: "'r api \<Rightarrow> 'r world \<Rightarrow> json \<Rightarrow> post_response \<times> 'r world" where
  "session_post A w body =
     (let (resp, r') = api_post A (remote w) body
      in (resp, \<lparr>remote = r', trace = trace w @ [PostEv body resp]\<rparr>))"

definition session_put :: "'r api \<Rightarrow> 'r world \<Rightarrow> string \<Rightarrow> json \<Rightarrow> put_response \<times> 'r world" where
  "session_put A w ident body =
     (let (resp, r') = api_put A (remote w) ident body
      in (resp, \<lparr>remote = r', trace = trace w @ [PutEv ident body resp]\<rparr>))"

text \<open>The requests issued between two worlds of one run.\<close>

definition issued :: "'r world \<Rightarrow> 'r world \<Rightarrow> event list" where
  "issued w w' = drop (length (trace w)) (trace w')"

section \<open>Paginated fetcher\<close>

text \<open>Truthiness of a cursor (\<open>if cursor:\<close>, \<open>if not data.get('nextCursor')\<close>).\<close>

definition truthy :: "string option \<Rightarrow> bool" where
  "truthy c = (case c of None \<Rightarrow> False | Some s \<Rightarrow> s \<noteq> [])"

text \<open>\<open>params = {'limit': 100}\<close>, with \<open>params['cursor'] = cursor\<close> when the cursor is truthy.\<close>

definition page_params :: "string option \<Rightarrow> params" where
  "page_params cur = \<lparr>p_limit = 100, p_cursor = (if truthy cur then cur else None)\<rparr>"

text \<open>\<open>data.get('data', [])\<close>.\<close>

definition page_data :: "workflow list option \<Rightarrow> workflow list" where
  "page_data d = (case d of None \<Rightarrow> [] | Some ws \<Rightarrow> ws)"

text \<open>
  The \<open>while True\<close> loops. The server decides whether a next cursor comes, so
  a loop may run forever: the first argument bounds the number of page requests, and
  \<open>None\<close> is a run that has not returned within the bound.

  \<open>N8NWorkflowDownloader.get_all_workflows\<close>: on a
  \<open>RequestException\<close> the handler does \<open>break\<close>, and the function
  returns \<open>all_workflows\<close> as accumulated.
\<close>

fun downloader_loop ::
  "nat \<Rightarrow> 'r api \<Rightarrow> 'r world \<Rightarrow> string option \<Rightarrow> workflow list \<Rightarrow> (workflow list \<times> 'r world) option" where
  "downloader_loop 0 A w cur all_workflows = None"
| "downloader_loop (Suc n) A w cur all_workflows =
     (case session_get A w (page_params cur) of
        (GetFailed, w') \<Rightarrow> Some (all_workflows, w')
      | (GetPage d next_cursor, w') \<Rightarrow>
          (let all_workflows' = all_workflows @ page_data d
           in if \<not> truthy next_cursor then Some (all_workflows', w')
              else downloader_loop n A w' next_cursor all_workflows'))"

definition downloader_get_all_workflows ::
  "nat \<Rightarrow> 'r api \<Rightarrow> 'r world \<Rightarrow> (workflow list \<times> 'r world) option" where
  "downloader_get_all_workflows n A w = downloader_loop n A w None []"

text \<open>\<open>N8NBackup.get_all_workflows\<close>: the handler does \<open>return []\<close>.\<close>

fun backup_loop ::
  "nat \<Rightarrow> 'r api \<Rightarrow> 'r world \<Rightarrow> string option \<Rightarrow> workflow list \<Rightarrow> (workflow list \<times> 'r world) option" where
  "backup_loop 0 A w cur all_workflows = None"
| "backup_loop (Suc n) A w cur all_workflows =
     (case session_get A w (page_params cur) of
        (GetFailed, w') \<Rightarrow> Some ([], w')
      | (GetPage d next_cursor, w') \<Rightarrow>
          (let all_workflows' = all_workflows @ page_data d
           in if \<not> truthy next_cursor then Some (all_workflows', w')
              else backup_loop n A w' next_cursor all_workflows'))"

definition backup_get_all_workflows ::
  "nat \<Rightarrow> 'r api \<Rightarrow> 'r world \<Rightarrow> (workflow list \<times> 'r world) option" where
  "backup_get_all_workflows n A w = backup_loop n A w None []"

text \<open>
  \<open>N8NWorkflowRestore.get_existing_workflows\<close>: the dictionary
  \<open>existing\<close> from names to ids; \<open>existing[name] = wf_id\<close> when
  both are truthy. The handler does \<open>return {}\<close>.
\<close>

definition add_existing :: "workflow \<Rightarrow> (string \<rightharpoonup> string) \<Rightarrow> (string \<rightharpoonup> string)" where
  "add_existing entry existing =
     (let name = (case wf_name entry of None \<Rightarrow> [] | Some n \<Rightarrow> n);
          ident = (case wf_id entry of None \<Rightarrow> [] | Some i \<Rightarrow> i)
      in if name \<noteq> [] \<and> ident \<noteq> [] then existing(name \<mapsto> ident) else existing)"

definition add_page :: "workflow list \<Rightarrow> (string \<rightharpoonup> string) \<Rightarrow> (string \<rightharpoonup> string)" where
  "add_page ws existing = fold add_existing ws existing"

fun existing_loop ::
  "nat \<Rightarrow> 'r api \<Rightarrow> 'r world \<Rightarrow> string option \<Rightarrow> (string \<rightharpoonup> string) \<Rightarrow> ((string \<rightharpoonup> string) \<times> 'r world) option" where
  "existing_loop 0 A w cur existing = None"
| "existing_loop (Suc n) A w cur existing =
     (case session_get A w (page_params cur) of
        (GetFailed, w') \<Rightarrow> Some (Map.empty, w')
      | (GetPage d next_cursor, w') \<Rightarrow>
          (let existing' = add_page (page_data d) existing
           in if \<not> truthy next_cursor then Some (existing', w')
              else existing_loop n A w' next_cursor existing'))"

definition get_existing_workflows ::
  "nat \<Rightarrow> 'r api \<Rightarrow> 'r world \<Rightarrow> ((string \<rightharpoonup> string) \<times> 'r world) option" where
  "get_existing_workflows n A w = existing_loop n A w None Map.empty"

text \<open>The entities of the pages received in a run, in pagination order.\<close>

fun listed :: "event list \<Rightarrow> workflow list" where
  "listed [] = []"
| "listed (GetEv ps (GetPage d nc) # evs) = page_data d @ listed evs"
| "listed (ev # evs) = listed evs"

fun get_failed :: "event \<Rightarrow> bool" where
  "get_failed (GetEv ps GetFailed) = True"
| "get_failed ev = False"

section \<open>Restore reconciler\<close>

text \<open>
  A snapshot payload is the value \<open>json.load\<close> returns; a Python
  \<open>dict\<close> is the list of its items in insertion order (\<open>JObj\<close>).
\<close>

definition dict_set :: "(string \<times> json) list \<Rightarrow> string \<Rightarrow> json \<Rightarrow> (string \<times> json) list" where
  "dict_set kvs k v =
     (if k \<in> set (map fst kvs)
      then map (\<lambda>(k', v'). if k' = k then (k', v) else (k', v')) kvs
      else kvs @ [(k, v)])"

definition allowed_fields :: "string list" where
  "allowed_fields = [''name'', ''nodes'', ''connections'']"

text \<open>
  \<open>clean_workflow_for_api\<close>: the comprehension over
  \<open>workflow_data.items()\<close>, then \<open>cleaned_data['settings'] = {}\<close>.
\<close>

definition clean_workflow_for_api :: "(string \<times> json) list \<Rightarrow> (string \<times> json) list" where
  "clean_workflow_for_api workflow_data =
     (let cleaned_data = filter (\<lambda>(k, v). k \<in> set allowed_fields) workflow_data
      in dict_set cleaned_data ''settings'' (JObj []))"

text \<open>
  \<open>create_workflow\<close>: POST of the cleaned payload;
  \<open>result.get('id')\<close> on success, \<open>None\<close> on a
  \<open>RequestException\<close>.
\<close>

definition create_workflow ::
  "'r api \<Rightarrow> 'r world \<Rightarrow> (string \<times> json) list \<Rightarrow> string option \<times> 'r world" where
  "create_workflow A w workflow_data =
     (let cleaned_data = clean_workflow_for_api workflow_data
      in case session_post A w (JObj cleaned_data) of
           (PostFailed, w') \<Rightarrow> (None, w')
         | (PostOk ident, w') \<Rightarrow> (ident, w'))"

text \<open>\<open>update_workflow\<close>: PUT of the payload as it is, to the id's URL.\<close>

definition update_workflow ::
  "'r api \<Rightarrow> 'r world \<Rightarrow> string \<Rightarrow> (string \<times> json) list \<Rightarrow> bool \<times> 'r world" where
  "update_workflow A w ident workflow_data =
     (case session_put A w ident (JObj workflow_data) of
        (PutFailed, w') \<Rightarrow> (False, w')
      | (PutOk, w') \<Rightarrow> (True, w'))"

text \<open>
  A candidate file: its directory below the backup directory, its name, and what
  \<open>open\<close> with \<open>json.load\<close> gives (\<open>ReadFailed\<close>:
  either of them raises).
\<close>

datatype read_result = ReadFailed | Parsed json

record snapshot_file =
  f_dir :: "string list"
  f_name :: string
  f_read :: read_result

text \<open>
  \<open>find_backup_files\<close>, applied to the paths
  \<open>backup_dir.rglob("*.json")\<close> yields; \<open>sorted\<close> compares paths
  component by component.
\<close>

definition find_backup_files :: "snapshot_file list \<Rightarrow> snapshot_file list" where
  "find_backup_files rglob =
     sort_key (\<lambda>f. f_dir f @ [f_name f])
       (filter (\<lambda>f. f_name f \<notin> set [''index.json'', ''README.json'']
                    \<and> take 1 (f_name f) \<noteq> ''.'') rglob)"

datatype status = Unknown | Success | Skipped | Failed | Error

datatype action =
  Created | CreatedRenamed | Updated | Exists | UpdateFailed | CreateFailed | Exception

record result =
  r_file :: string
  status :: status
  action :: "action option"
  workflow_id :: "string option"

text \<open>\<open>sub in s\<close> for two strings.\<close>

fun contains_str :: "string \<Rightarrow> string \<Rightarrow> bool" where
  "contains_str sub [] = (sub = [])"
| "contains_str sub (c # s) = (take (length sub) (c # s) = sub \<or> contains_str sub s)"

text \<open>
  \<^verbatim>\<open>if 'workflow' in backup_data: workflow_data = backup_data['workflow']\<close>, else
  the whole payload. On a list or a string the membership test works and the indexing
  raises \<open>TypeError\<close>; on \<open>null\<close>, a boolean or a number the test itself raises.
\<close>

fun unwrap_backup :: "json \<Rightarrow> py_error + json" where
  "unwrap_backup (JObj kvs) =
     (case map_of kvs ''workflow'' of Some v \<Rightarrow> Inr v | None \<Rightarrow> Inr (JObj kvs))"
| "unwrap_backup (JArr xs) =
     (if JStr ''workflow'' \<in> set xs then Inl TypeError else Inr (JArr xs))"
| "unwrap_backup (JStr s) =
     (if contains_str ''workflow'' s then Inl TypeError else Inr (JStr s))"
| "unwrap_backup v = Inl TypeError"

text \<open>
  \<open>existing_workflows.get(workflow_name)\<close>: the keys are strings; a list or a
  dict is unhashable (\<open>TypeError\<close>); any other value is a key that is not
  there.
\<close>

fun existing_get :: "(string \<rightharpoonup> string) \<Rightarrow> json \<Rightarrow> py_error + string option" where
  "existing_get existing (JStr s) = Inr (existing s)"
| "existing_get existing (JArr xs) = Inl TypeError"
| "existing_get existing (JObj kvs) = Inl TypeError"
| "existing_get existing v = Inr None"

text \<open>
  The name inside the f-string of the rename branch. The branch is reached with a name
  found in \<open>existing\<close>, which is a string.
\<close>

fun name_text :: "json \<Rightarrow> string" where
  "name_text (JStr s) = s"
| "name_text v = []"

text \<open>
  \<open>restore_workflow\<close>. Every exception of the \<open>try\<close> block ends in
  the handler, which sets \<open>status\<close> and \<open>action\<close> and leaves the
  other keys of \<open>result\<close>. \<open>workflow_data.get\<close> raises
  \<open>AttributeError\<close> unless \<open>workflow_data\<close> is a dict.
\<close>

definition restore_workflow ::
  "'r api \<Rightarrow> 'r world \<Rightarrow> snapshot_file \<Rightarrow> (string \<rightharpoonup> string) \<Rightarrow> string \<Rightarrow> result \<times> 'r world" where
  "restore_workflow A w file_path existing_workflows mode =
     (let result = \<lparr>r_file = f_name file_path, status = Unknown, action = None, workflow_id = None\<rparr>;
          handler = (result\<lparr>status := Error, action := Some Exception\<rparr>, w)
      in case f_read file_path of
           ReadFailed \<Rightarrow> handler
         | Parsed backup_data \<Rightarrow>
             (case unwrap_backup backup_data of
                Inl e \<Rightarrow> handler
              | Inr (JObj workflow_data) \<Rightarrow>
                  (let workflow_name =
                         (case map_of workflow_data ''name'' of None \<Rightarrow> JStr ''Unnamed'' | Some v \<Rightarrow> v)
                   in case existing_get existing_workflows workflow_name of
                        Inl e \<Rightarrow> handler
                      | Inr existing_id \<Rightarrow>
                          if truthy existing_id then
                            (if mode = ''skip'' then
                               (result\<lparr>status := Skipped, action := Some Exists,
                                       workflow_id := existing_id\<rparr>, w)
                             else if mode = ''update'' then
                               (case update_workflow A w (case existing_id of Some i \<Rightarrow> i | None \<Rightarrow> []) workflow_data of
                                  (True, w') \<Rightarrow>
                                    (result\<lparr>status := Success, action := Some Updated,
                                            workflow_id := existing_id\<rparr>, w')
                                | (False, w') \<Rightarrow>
                                    (result\<lparr>status := Failed, action := Some UpdateFailed\<rparr>, w'))
                             else if mode = ''rename'' then
                               (let new_name = name_text workflow_name @ '' (restored ''
                                                 @ api_clock A (remote w) @ '')'';
                                    workflow_data' = dict_set workflow_data ''name'' (JStr new_name)
                                in case create_workflow A w workflow_data' of
                                     (new_id, w') \<Rightarrow>
                                       if truthy new_id then
                                         (result\<lparr>status := Success, action := Some CreatedRenamed,
                                                 workflow_id := new_id\<rparr>, w')
                                       else
                                         (result\<lparr>status := Failed, action := Some CreateFailed\<rparr>, w'))
                             else (result, w))
                          else
                            (case create_workflow A w workflow_data of
                               (new_id, w') \<Rightarrow>
                                 if truthy new_id then
                                   (result\<lparr>status := Success, action := Some Created,
                                           workflow_id := new_id\<rparr>, w')
                                 else
                                   (result\<lparr>status := Failed, action := Some CreateFailed\<rparr>, w')))
              | Inr other \<Rightarrow> handler))"

record stats =
  total :: nat
  created :: nat
  updated :: nat
  skipped :: nat
  failed :: nat
  results :: "result list"

text \<open>The counter update of the loop of \<open>restore_from_backup\<close>.\<close>

definition update_counters :: "stats \<Rightarrow> result \<Rightarrow> stats" where
  "update_counters st r =
     (if status r = Success then
        (if action r = Some Created \<or> action r = Some CreatedRenamed
         then st\<lparr>created := created st + 1\<rparr>
         else if action r = Some Updated then st\<lparr>updated := updated st + 1\<rparr>
         else st)
      else if status r = Skipped then st\<lparr>skipped := skipped st + 1\<rparr>
      else if status r = Failed \<or> status r = Error then st\<lparr>failed := failed st + 1\<rparr>
      else st)"

fun restore_loop ::
  "'r api \<Rightarrow> 'r world \<Rightarrow> snapshot_file list \<Rightarrow> (string \<rightharpoonup> string) \<Rightarrow> string \<Rightarrow> stats
     \<Rightarrow> stats \<times> 'r world" where
  "restore_loop A w [] existing_workflows mode st = (st, w)"
| "restore_loop A w (file_path # rest) existing_workflows mode st =
     (case restore_workflow A w file_path existing_workflows mode of
        (r, w') \<Rightarrow>
          restore_loop A w' rest existing_workflows mode
            (update_counters (st\<lparr>results := results st @ [r]\<rparr>) r))"

text \<open>
  \<open>restore_from_backup\<close>; the first argument bounds the page requests of
  \<open>get_existing_workflows\<close>.
\<close>

definition restore_from_backup ::
  "nat \<Rightarrow> 'r api \<Rightarrow> 'r world \<Rightarrow> snapshot_file list \<Rightarrow> string \<Rightarrow> bool \<Rightarrow> (stats \<times> 'r world) option" where
  "restore_from_backup n A w rglob mode dry_run =
     (let workflow_files = find_backup_files rglob;
          st = \<lparr>total = length workflow_files, created = 0, updated = 0, skipped = 0,
                failed = 0, results = []\<rparr>
      in if total st = 0 then Some (st, w)
         else if dry_run then Some (st, w)
         else (case get_existing_workflows n A w of
                 None \<Rightarrow> None
               | Some (existing_workflows, w1) \<Rightarrow>
                   Some (restore_loop A w1 workflow_files existing_workflows mode st)))"

section \<open>Folder paths and example inputs\<close>

text \<open>
  The values \<open>folder_path\<close> takes in the body of the organizer's loop for one
  workflow, in order: one per tag, or the \<open>No Tag\<close> path.
\<close>

definition folder_paths :: "(string \<Rightarrow> detail_response) \<Rightarrow> workflow \<Rightarrow> string list" where
  "folder_paths api_detail w =
     (case wf_id w of
        None \<Rightarrow> []
      | Some wid \<Rightarrow>
          (let project_name_safe = sanitize_filename (get_workflow_project api_detail wid);
               tgs = (case tags w of None \<Rightarrow> [] | Some ts \<Rightarrow> ts)
           in if tgs \<noteq> []
              then map (\<lambda>t. project_name_safe @ ''/'' @ sanitize_filename (tag_label t)) tgs
              else [project_name_safe @ ''/No Tag'']))"

text \<open>
  Example inputs: a detail endpoint that knows the project \<open>Acme\<close> for the ids
  1 to 3 and fails for every other id, and some workflows of the listing endpoint.
\<close>

definition ex_detail :: "string \<Rightarrow> detail_response" where
  "ex_detail i =
     (if i \<in> set [''1'', ''2'', ''3'']
      then DetailOk \<lparr>shared = Some [\<lparr>s_project = Some \<lparr>p_name = Some ''Acme'', p_type = Some ''team''\<rparr>\<rparr>]\<rparr>
      else DetailFailed)"

definition ex_prod :: workflow where
  "ex_prod = \<lparr>wf_id = Some ''1'', wf_name = Some ''Deploy'', isArchived = Some False,
              tags = Some [\<lparr>tag_name = Some ''prod''\<rparr>]\<rparr>"

definition ex_untagged :: workflow where
  "ex_untagged = \<lparr>wf_id = Some ''2'', wf_name = Some ''Cleanup'', isArchived = None, tags = Some []\<rparr>"

definition ex_archived :: workflow where
  "ex_archived = \<lparr>wf_id = Some ''3'', wf_name = Some ''Old'', isArchived = Some True,
              tags = Some [\<lparr>tag_name = Some ''prod''\<rparr>]\<rparr>"

definition ex_collide :: workflow where
  "ex_collide = \<lparr>wf_id = Some ''4'', wf_name = Some ''Twice'', isArchived = Some False,
              tags = Some [\<lparr>tag_name = Some ''a/b''\<rparr>, \<lparr>tag_name = Some ''a_b''\<rparr>]\<rparr>"

definition ex_blank :: workflow where
  "ex_blank = \<lparr>wf_id = Some ''5'', wf_name = Some ''Blank'', isArchived = Some False,
              tags = Some [\<lparr>tag_name = Some []\<rparr>]\<rparr>"

definition ex_nameless :: workflow where
  "ex_nameless = \<lparr>wf_id = Some ''6'', wf_name = Some ''Nameless'', isArchived = Some False,
              tags = Some [\<lparr>tag_name = None\<rparr>]\<rparr>"

text \<open>
  Example inputs for the fetcher. A scripted server: its state is the list of responses it
  will still give, one per GET; it rejects every POST and PUT.
\<close>

definition script_api :: "get_response list api" where
  "script_api =
     \<lparr>api_get = (\<lambda>r ps. case r of [] \<Rightarrow> (GetFailed, []) | x # xs \<Rightarrow> (x, xs)),
      api_post = (\<lambda>r body. (PostFailed, r)),
      api_put = (\<lambda>r ident body. (PutFailed, r)),
      api_clock = (\<lambda>r. ''20260112_111221'')\<rparr>"

text \<open>
  The listed entities that \<open>get_existing_workflows\<close> enters under
  \<open>name\<close>: those with that name, non-empty, and a non-empty id.
\<close>

definition named :: "string \<Rightarrow> workflow list \<Rightarrow> workflow list" where
  "named name es = filter (\<lambda>e. wf_name e = Some name \<and> name \<noteq> [] \<and> truthy (wf_id e)) es"

text \<open>
  A listing in two pages, with two entities named alike, one without a name and one
  without an id.
\<close>

definition ex_dup1 :: workflow where
  "ex_dup1 = \<lparr>wf_id = Some ''1'', wf_name = Some ''Invoice Sync'', isArchived = None, tags = None\<rparr>"

definition ex_noname :: workflow where
  "ex_noname = \<lparr>wf_id = Some ''2'', wf_name = None, isArchived = None, tags = None\<rparr>"

definition ex_dup2 :: workflow where
  "ex_dup2 = \<lparr>wf_id = Some ''3'', wf_name = Some ''Invoice Sync'', isArchived = None, tags = None\<rparr>"

definition ex_noid :: workflow where
  "ex_noid = \<lparr>wf_id = None, wf_name = Some ''Invoice Sync'', isArchived = None, tags = None\<rparr>"

definition ex_report :: workflow where
  "ex_report = \<lparr>wf_id = Some ''5'', wf_name = Some ''Report'', isArchived = None, tags = None\<rparr>"

definition ex_listing :: "get_response list" where
  "ex_listing = [GetPage (Some [ex_dup1, ex_noname, ex_dup2]) (Some ''c1''),
                 GetPage (Some [ex_noid, ex_report]) None]"

text \<open>
  Example inputs for the reconciler. An in-memory server: its state is the list of the
  entities it holds, each an id with its body. GET lists all of them in one page, POST
  adds an entity under a fresh id, PUT replaces the body of an entity it holds.
\<close>

definition mem_summary :: "string \<times> json \<Rightarrow> workflow" where
  "mem_summary e =
     \<lparr>wf_id = Some (fst e),
      wf_name = (case snd e of
                   JObj kvs \<Rightarrow> (case map_of kvs ''name'' of Some (JStr n) \<Rightarrow> Some n | _ \<Rightarrow> None)
                 | _ \<Rightarrow> None),
      isArchived = None, tags = None\<rparr>"

definition mem_api :: "(string \<times> json) list api" where
  "mem_api =
     \<lparr>api_get = (\<lambda>r ps. (GetPage (Some (map mem_summary r)) None, r)),
      api_post = (\<lambda>r body. (PostOk (Some (''new'' @ replicate (length r) CHR ''+'')),
                              r @ [(''new'' @ replicate (length r) CHR ''+'', body)])),
      api_put = (\<lambda>r ident body.
                   if ident \<in> set (map fst r)
                   then (PutOk, map (\<lambda>(i, b). if i = ident then (i, body) else (i, b)) r)
                   else (PutFailed, r)),
      api_clock = (\<lambda>r. ''20260112_111221'')\<rparr>"

text \<open>
  A remote that holds one entity, a snapshot payload of the same name, and three files of
  a snapshot: that payload, a file that cannot be parsed, and the manifest.
\<close>

definition ex_remote :: "(string \<times> json) list" where
  "ex_remote = [(''7'', JObj [(''name'', JStr ''Invoice Sync''), (''nodes'', JArr [])])]"

definition ex_payload :: "(string \<times> json) list" where
  "ex_payload = [(''id'', JStr ''7''), (''name'', JStr ''Invoice Sync''), (''active'', JBool True),
                 (''nodes'', JArr [JObj [(''type'', JStr ''webhook'')]]), (''connections'', JObj [])]"

definition ex_file :: snapshot_file where
  "ex_file = \<lparr>f_dir = [''Acme'', ''prod''], f_name = ''Invoice Sync.json'', f_read = Parsed (JObj ex_payload)\<rparr>"

definition ex_broken :: snapshot_file where
  "ex_broken = \<lparr>f_dir = [''Acme'', ''No Tag''], f_name = ''Broken.json'', f_read = ReadFailed\<rparr>"

definition ex_index :: snapshot_file where
  "ex_index = \<lparr>f_dir = [], f_name = ''index.json'', f_read = Parsed (JObj [(''backup_info'', JObj [])])\<rparr>"

text \<open>
  The \<open>try\<close> block of \<open>restore_workflow\<close> raises: the file cannot
  be read or parsed, the payload (or its \<open>workflow\<close> member) is not a dict, or
  the name is unhashable.
\<close>

definition raises :: "snapshot_file \<Rightarrow> (string \<rightharpoonup> string) \<Rightarrow> bool" where
  "raises file_path existing_workflows =
     (case f_read file_path of
        ReadFailed \<Rightarrow> True
      | Parsed backup_data \<Rightarrow>
          (case unwrap_backup backup_data of
             Inl e \<Rightarrow> True
           | Inr (JObj workflow_data) \<Rightarrow>
               (case existing_get existing_workflows
                       (case map_of workflow_data ''name'' of None \<Rightarrow> JStr ''Unnamed'' | Some v \<Rightarrow> v) of
                  Inl e \<Rightarrow> True
                | Inr existing_id \<Rightarrow> False)
           | Inr other \<Rightarrow> True))"

text \<open>
  The record the handler of \<open>restore_workflow\<close> leaves.
\<close>

definition exception_result :: "snapshot_file \<Rightarrow> result" where
  "exception_result file_path =
     \<lparr>r_file = f_name file_path, status = Error, action = Some Exception, workflow_id = None\<rparr>"

text \<open>
  The counters of \<open>stats\<close> agree with its \<open>results\<close>.
\<close>

definition tallied :: "stats \<Rightarrow> bool" where
  "tallied st =
     (created st = length (filter (\<lambda>r. action r = Some Created \<or> action r = Some CreatedRenamed) (results st)) \<and>
      updated st = length (filter (\<lambda>r. action r = Some Updated \<and> status r = Success) (results st)) \<and>
      skipped st = length (filter (\<lambda>r. status r = Skipped) (results st)) \<and>
      failed st = length (filter (\<lambda>r. status r = Failed \<or> status r = Error) (results st)))"

text \<open>
  The complete pagination of the server from a remote state \<open>r\<close> and a cursor: the
  requests, each with the cursor the previous response gave, up to the first response
  that fails or carries no next cursor, and the remote state they leave. It is not empty
  and it ends only there.
\<close>

fun is_chain :: "'r api \<Rightarrow> 'r \<Rightarrow> string option \<Rightarrow> event list \<Rightarrow> 'r \<Rightarrow> bool" where
  "is_chain A r cur [] r' = False"
| "is_chain A r cur (ev # evs) r' =
     (case api_get A r (page_params cur) of
        (GetFailed, r1) \<Rightarrow> ev = GetEv (page_params cur) GetFailed \<and> evs = [] \<and> r' = r1
      | (GetPage d next_cursor, r1) \<Rightarrow>
          ev = GetEv (page_params cur) (GetPage d next_cursor) \<and>
          (if truthy next_cursor then is_chain A r1 next_cursor evs r' else evs = [] \<and> r' = r1))"

section \<open>Properties of sanitization\<close>

lemma replace_char_set:
  "set (replace_char s old new) \<subseteq> (set s - {old}) \<union> {new}"
  by (auto simp: replace_char_def)

lemma strip_subset: "set (strip s) \<subseteq> set s"
proof
  fix c
  assume "c \<in> set (strip s)"
  then have "c \<in> set (dropWhile is_space (rev (dropWhile is_space s)))"
    by (simp add: strip_def)
  then have "c \<in> set (rev (dropWhile is_space s))"
    by (rule set_dropWhileD)
  then have "c \<in> set (dropWhile is_space s)"
    by simp
  then show "c \<in> set s"
    by (rule set_dropWhileD)
qed

lemma dropWhile_self: "xs = [] \<or> \<not> P (hd xs) \<Longrightarrow> dropWhile P xs = xs"
  by (cases xs) auto

lemma strip_idem: "strip (strip s) = strip s"
proof -
  define t where "t = dropWhile is_space s"
  define u where "u = rev (dropWhile is_space (rev t))"
  have t_split: "t = u @ rev (takeWhile is_space (rev t))"
    unfolding u_def rev_append[symmetric] takeWhile_dropWhile_id by simp
  have hd_t: "t \<noteq> [] \<Longrightarrow> \<not> is_space (hd t)"
    unfolding t_def by (rule hd_dropWhile)
  have front: "dropWhile is_space u = u"
  proof (rule dropWhile_self, cases "u = []")
    case True
    then show "u = [] \<or> \<not> is_space (hd u)" by simp
  next
    case False
    with t_split have "hd u = hd t" and "t \<noteq> []"
      by (metis hd_append2, metis append_is_Nil_conv)
    with hd_t show "u = [] \<or> \<not> is_space (hd u)" by simp
  qed
  have rear: "dropWhile is_space (rev u) = rev u"
    by (simp add: u_def)
  have "strip s = u" by (simp add: strip_def t_def u_def)
  moreover have "strip u = u" by (simp add: strip_def front rear)
  ultimately show ?thesis by simp
qed

lemma foldl_replace_clean:
  "set (foldl (\<lambda>n char. replace_char n char CHR ''_'') s cs) \<subseteq> (set s - set cs) \<union> {CHR ''_''}"
proof (induction cs arbitrary: s)
  case Nil
  then show ?case by auto
next
  case (Cons c cs)
  have "set (foldl (\<lambda>n char. replace_char n char CHR ''_'') (replace_char s c CHR ''_'') cs)
        \<subseteq> (set (replace_char s c CHR ''_'') - set cs) \<union> {CHR ''_''}"
    by (rule Cons.IH)
  moreover have "set (replace_char s c CHR ''_'') \<subseteq> (set s - {c}) \<union> {CHR ''_''}"
    by (rule replace_char_set)
  ultimately show ?case by auto
qed

lemma foldl_replace_id:
  "set s \<inter> set cs = {} \<Longrightarrow> foldl (\<lambda>n char. replace_char n char CHR ''_'') s cs = s"
proof (induction cs arbitrary: s)
  case Nil
  then show ?case by simp
next
  case (Cons c cs)
  from Cons.prems have "c \<notin> set s" by auto
  then have "replace_char s c CHR ''_'' = s"
    by (induction s) (auto simp: replace_char_def)
  with Cons show ?case by auto
qed

lemma underscore_valid: "CHR ''_'' \<notin> set invalid_chars"
  by (simp add: invalid_chars_def)

lemma sanitize_no_invalid: "set (sanitize_filename x) \<inter> set invalid_chars = {}"
proof -
  have "set (sanitize_filename x) \<subseteq> (set x - set invalid_chars) \<union> {CHR ''_''}"
    unfolding sanitize_filename_def using strip_subset foldl_replace_clean by blast
  then show ?thesis using underscore_valid by auto
qed

lemma sanitize_clean_id:
  "set x \<inter> set invalid_chars = {} \<Longrightarrow> sanitize_filename x = strip x"
  by (simp add: sanitize_filename_def foldl_replace_id)

text \<open>
  C5. For every string \<open>x\<close>, sanitizing twice gives what sanitizing once
  gives, and the output of \<open>sanitize_filename\<close> holds none of the characters
  \<open><>:"/\\|?*\<close>.
\<close>

theorem sanitize_filename_idempotent:
  "sanitize_filename (sanitize_filename x) = sanitize_filename x \<and>
   set (sanitize_filename x) \<inter> set invalid_chars = {}"
proof -
  have "sanitize_filename (sanitize_filename x) = strip (sanitize_filename x)"
    by (rule sanitize_clean_id) (rule sanitize_no_invalid)
  also have "\<dots> = sanitize_filename x"
    by (simp add: sanitize_filename_def strip_idem)
  finally show ?thesis using sanitize_no_invalid[of x] by simp
qed

theorem sanitize_filename_idempotent_witness:
  "sanitize_filename '' a/b<c? '' = ''a_b_c_'' \<and>
   sanitize_filename (sanitize_filename '' a/b<c? '') = ''a_b_c_'' \<and>
   set (sanitize_filename '' a/b<c? '') \<inter> set invalid_chars = {}"
proof -
  have e: "sanitize_filename '' a/b<c? '' = ''a_b_c_''"
    by (simp add: sanitize_filename_def strip_def replace_char_def invalid_chars_def is_space_def)
  show ?thesis
    using sanitize_filename_idempotent[of "'' a/b<c? ''"] e by simp
qed

section \<open>Properties of the organizer\<close>

lemma map_of_map_upd:
  "map_of (map (\<lambda>(k', ws). if k' = k then (k', f ws) else (k', ws)) org) k'
     = map_option (\<lambda>ws. if k' = k then f ws else ws) (map_of org k')"
  by (induction org) auto

lemma bucket_add_to_folder:
  "bucket (add_to_folder k w org) k' = (if k' = k then bucket org k @ [w] else bucket org k')"
proof (cases "k \<in> set (map fst org)")
  case True
  then obtain ws where "map_of org k = Some ws"
    by (metis map_of_eq_None_iff not_Some_eq set_map)
  with True show ?thesis
    by (simp add: add_to_folder_def bucket_def map_of_map_upd[where f="\<lambda>ws. ws @ [w]"] split: option.splits)
next
  case False
  then have none: "map_of org k = None"
    by (simp add: map_of_eq_None_iff)
  show ?thesis
    using False none
    by (simp add: add_to_folder_def bucket_def map_of_map_upd[where f="\<lambda>ws. ws @ [w]"] map_add_def
             split: option.splits)
qed

lemma bucket_add_tags:
  "bucket (add_tags p w ts org) k
     = bucket org k @ map (\<lambda>_. w) (filter (\<lambda>q. q = k) (map (\<lambda>t. p @ ''/'' @ sanitize_filename (tag_label t)) ts))"
  by (induction ts arbitrary: org) (auto simp: bucket_add_to_folder)

lemma bucket_organize_workflow:
  "organize_workflow api_detail w org = Inr org' \<Longrightarrow>
   bucket org' k = bucket org k @ map (\<lambda>_. w) (filter (\<lambda>q. q = k) (folder_paths api_detail w))"
  by (auto simp: organize_workflow_def folder_paths_def Let_def bucket_add_tags bucket_add_to_folder
           split: option.splits if_splits)

lemma bucket_organize_loop:
  "organize_loop api_detail ws org = Inr org' \<Longrightarrow>
   bucket org' k = bucket org k
      @ concat (map (\<lambda>w. map (\<lambda>_. w) (filter (\<lambda>q. q = k) (folder_paths api_detail w))) ws)"
proof (induction ws arbitrary: org)
  case Nil
  then show ?case by simp
next
  case (Cons w ws)
  then obtain org1 where s1: "organize_workflow api_detail w org = Inr org1"
    and s2: "organize_loop api_detail ws org1 = Inr org'"
    by (auto split: sum.splits)
  show ?case
    using Cons.IH[OF s2] bucket_organize_workflow[OF s1, of k] by simp
qed

lemma organize_loop_ids:
  "organize_loop api_detail ws org = Inr org' \<Longrightarrow> w \<in> set ws \<Longrightarrow> wf_id w \<noteq> None"
proof (induction ws arbitrary: org)
  case Nil
  then show ?case by simp
next
  case (Cons a ws)
  then show ?case
    by (auto simp: organize_workflow_def split: sum.splits option.splits)
qed

lemma bucket_organize_by_tags:
  "organize_by_tags api_detail workflow_list = Inr org \<Longrightarrow>
   bucket org k = concat (map (\<lambda>w. map (\<lambda>_. w) (filter (\<lambda>q. q = k) (folder_paths api_detail w)))
                     (filter (\<lambda>w. \<not> is_archived w) workflow_list))"
  using bucket_organize_loop[of api_detail _ "[]" org k]
  by (simp add: organize_by_tags_def bucket_def)

lemma in_bucket_iff:
  assumes "organize_by_tags api_detail workflow_list = Inr org"
  shows "w \<in> set (bucket org k) \<longleftrightarrow>
         w \<in> set workflow_list \<and> \<not> is_archived w \<and> k \<in> set (folder_paths api_detail w)"
  by (auto simp: bucket_organize_by_tags[OF assms])

lemma count_list_const_map: "count_list (map (\<lambda>_. w) xs) w = length xs"
  by (induction xs) auto

lemma count_list_const_map_other: "w' \<noteq> w \<Longrightarrow> count_list (map (\<lambda>_. w') xs) w = 0"
  by (induction xs) auto

lemma length_filter_eq_count: "length (filter (\<lambda>q. q = k) xs) = count_list xs k"
  by (induction xs) auto

lemma count_concat_placements:
  "count_list (concat (map (\<lambda>w. map (\<lambda>_. w) (filter (\<lambda>q. q = k) (paths w))) ws)) w
     = count_list ws w * count_list (paths w) k"
  by (induction ws)
     (auto simp: count_list_const_map count_list_const_map_other length_filter_eq_count)

lemma count_list_filter_pred: "P w \<Longrightarrow> count_list (filter P ws) w = count_list ws w"
  by (induction ws) auto

lemma count_bucket:
  assumes "organize_by_tags api_detail workflow_list = Inr org" and "\<not> is_archived w"
  shows "count_list (bucket org k) w = count_list workflow_list w * count_list (folder_paths api_detail w) k"
  using assms(2)
  by (simp add: bucket_organize_by_tags[OF assms(1)] count_concat_placements
       count_list_filter_pred[where P="\<lambda>w. \<not> is_archived w"])

lemma keys_add_to_folder:
  "map fst (add_to_folder k w org) = (if k \<in> set (map fst org) then map fst org else map fst org @ [k])"
proof -
  have "map fst (map (\<lambda>(k', ws). if k' = k then (k', ws @ [w]) else (k', ws)) xs) = map fst xs" for xs
    by (induction xs) auto
  then show ?thesis by (simp add: add_to_folder_def Let_def)
qed

lemma distinct_add_to_folder:
  "distinct (map fst org) \<Longrightarrow> distinct (map fst (add_to_folder k w org))"
  by (simp add: keys_add_to_folder)

lemma distinct_add_tags:
  "distinct (map fst org) \<Longrightarrow> distinct (map fst (add_tags p w ts org))"
  by (induction ts arbitrary: org) (simp_all add: distinct_add_to_folder)

lemma distinct_organize_workflow:
  "organize_workflow api_detail w org = Inr org' \<Longrightarrow> distinct (map fst org) \<Longrightarrow> distinct (map fst org')"
  by (auto simp: organize_workflow_def Let_def distinct_add_tags distinct_add_to_folder
           split: option.splits if_splits)

lemma distinct_organize_loop:
  "organize_loop api_detail ws org = Inr org' \<Longrightarrow> distinct (map fst org) \<Longrightarrow> distinct (map fst org')"
proof (induction ws arbitrary: org)
  case Nil
  then show ?case by simp
next
  case (Cons w ws)
  then obtain org1 where s1: "organize_workflow api_detail w org = Inr org1"
    and s2: "organize_loop api_detail ws org1 = Inr org'"
    by (auto split: sum.splits)
  from distinct_organize_workflow[OF s1 Cons.prems(2)] Cons.IH[OF s2] show ?case by simp
qed

lemma distinct_organize_by_tags:
  "organize_by_tags api_detail workflow_list = Inr org \<Longrightarrow> distinct (map fst org)"
  using distinct_organize_loop[of api_detail _ "[]" org] by (simp add: organize_by_tags_def)

lemma download_jobs_iff:
  "distinct (map fst org) \<Longrightarrow> (k, w) \<in> set (download_jobs org) \<longleftrightarrow> w \<in> set (bucket org k)"
proof -
  assume d: "distinct (map fst org)"
  have "(k, w) \<in> set (download_jobs org) \<longleftrightarrow> (\<exists>ws. (k, ws) \<in> set org \<and> w \<in> set ws)"
    by (auto simp: download_jobs_def)
  also have "\<dots> \<longleftrightarrow> (\<exists>ws. map_of org k = Some ws \<and> w \<in> set ws)"
    using d by (auto dest: map_of_SomeD)
  also have "\<dots> \<longleftrightarrow> w \<in> set (bucket org k)"
    by (cases "map_of org k") (auto simp: bucket_def)
  finally show ?thesis .
qed

lemma organize_by_tags_total:
  "(\<And>w. w \<in> set workflow_list \<Longrightarrow> \<not> is_archived w \<Longrightarrow> wf_id w \<noteq> None) \<Longrightarrow>
   \<exists>org. organize_by_tags api_detail workflow_list = Inr org"
proof -
  have "(\<And>w. w \<in> set ws \<Longrightarrow> wf_id w \<noteq> None) \<Longrightarrow> \<exists>org'. organize_loop api_detail ws org = Inr org'"
    for ws org
  proof (induction ws arbitrary: org)
    case Nil
    then show ?case by simp
  next
    case (Cons a ws)
    then obtain i where "wf_id a = Some i" by auto
    then have "\<exists>org1. organize_workflow api_detail a org = Inr org1"
      by (simp add: organize_workflow_def Let_def)
    then obtain org1 where "organize_workflow api_detail a org = Inr org1" ..
    with Cons show ?case by auto
  qed
  from this[of "filter (\<lambda>w. \<not> is_archived w) workflow_list" "[]"]
  show "(\<And>w. w \<in> set workflow_list \<Longrightarrow> \<not> is_archived w \<Longrightarrow> wf_id w \<noteq> None) \<Longrightarrow>
   \<exists>org. organize_by_tags api_detail workflow_list = Inr org"
    by (simp add: organize_by_tags_def)
qed

lemma length_folder_paths:
  "wf_id w \<noteq> None \<Longrightarrow>
   length (folder_paths api_detail w) = (case tags w of Some (t # ts) \<Rightarrow> length (t # ts) | _ \<Rightarrow> 1)"
  by (auto simp: folder_paths_def Let_def split: option.splits list.splits)

lemmas organize_eval =
  organize_by_tags_def is_archived_def organize_workflow_def get_workflow_project_def
  get_workflow_details_def sanitize_filename_def strip_def replace_char_def invalid_chars_def
  is_space_def add_to_folder_def tag_label_def Let_def

lemma ex1: "organize_by_tags ex_detail [ex_prod, ex_untagged, ex_archived]
   = Inr [(''Acme/prod'', [ex_prod]), (''Acme/No Tag'', [ex_untagged])]"
  by (simp add: organize_eval ex_detail_def ex_prod_def ex_untagged_def ex_archived_def)

lemma ex2: "organize_by_tags ex_detail [ex_collide]
   = Inr [(''Unknown Project/a_b'', [ex_collide, ex_collide])]"
  by (simp add: organize_eval ex_detail_def ex_collide_def)

lemma ex3: "organize_by_tags ex_detail [ex_blank]
   = Inr [(''Unknown Project/'', [ex_blank])]"
  by (simp add: organize_eval ex_detail_def ex_blank_def)

lemma ex4: "organize_by_tags ex_detail [ex_nameless]
   = Inr [(''Unknown Project/Untagged'', [ex_nameless])]"
  by (simp add: organize_eval ex_detail_def ex_nameless_def)

lemma sanitize_untagged: "sanitize_filename ''Untagged'' = ''Untagged''"
  by (simp add: sanitize_filename_def strip_def replace_char_def invalid_chars_def is_space_def)

text \<open>
  \<open>N8NBackup.organize_by_folders\<close> is the same function, so what follows holds for it too.
\<close>

lemma organize_by_folders_eq:
  "organize_by_folders api_detail workflow_list = organize_by_tags api_detail workflow_list"
  by (simp add: organize_by_folders_def)

text \<open>
  C3. For every input list, no entity whose \<open>isArchived\<close> flag is true is in a
  bucket of the organizer's output: what a bucket holds is a non-archived entity of the
  input. So no call of \<open>download_workflow\<close>, the one place where an entity's
  file is written, gets an archived entity.
\<close>

theorem archived_never_organized:
  assumes "organize_by_tags api_detail workflow_list = Inr org"
  shows "(\<forall>k w. w \<in> set (bucket org k) \<longrightarrow> w \<in> set workflow_list \<and> \<not> is_archived w) \<and>
         (\<forall>k w. (k, w) \<in> set (download_jobs org) \<longrightarrow> \<not> is_archived w)"
  using in_bucket_iff[OF assms] download_jobs_iff[OF distinct_organize_by_tags[OF assms]]
  by simp

theorem archived_never_organized_witness:
  "organize_by_tags ex_detail [ex_prod, ex_untagged, ex_archived]
     = Inr [(''Acme/prod'', [ex_prod]), (''Acme/No Tag'', [ex_untagged])] \<and>
   is_archived ex_archived \<and>
   ex_archived \<notin> set (bucket [(''Acme/prod'', [ex_prod]), (''Acme/No Tag'', [ex_untagged])] ''Acme/prod'') \<and>
   (''Acme/prod'', ex_archived) \<notin> set (download_jobs [(''Acme/prod'', [ex_prod]), (''Acme/No Tag'', [ex_untagged])])"
proof -
  have a: "is_archived ex_archived" by (simp add: is_archived_def ex_archived_def)
  from archived_never_organized[OF ex1] a show ?thesis
    using ex1 by blast
qed

text \<open>
  C2, as amended. A non-archived entity \<open>w\<close> of the input is appended once per
  tag to the bucket keyed by the sanitized project name, \<open>/\<close> and the
  sanitized tag label (\<open>folder_paths\<close>: \<open>N\<close> keys for \<open>N
  \<ge> 1\<close> tags, the one key \<open>project/No Tag\<close> for none). The buckets
  that hold \<open>w\<close> are exactly these keys, and bucket \<open>k\<close> holds
  \<open>w\<close> once for every tag whose key is \<open>k\<close> (times the occurrences
  of \<open>w\<close> in the input). The buckets are \<open>N\<close> in number when the
  keys are pairwise distinct; tags whose labels sanitize to one string share a bucket.
\<close>

theorem organize_fan_out:
  assumes "organize_by_tags api_detail workflow_list = Inr org"
      and "w \<in> set workflow_list" and "\<not> is_archived w"
  shows "{k. w \<in> set (bucket org k)} = set (folder_paths api_detail w) \<and>
         (\<forall>k. count_list (bucket org k) w
               = count_list workflow_list w * count_list (folder_paths api_detail w) k) \<and>
         length (folder_paths api_detail w) = (case tags w of Some (t # ts) \<Rightarrow> length (t # ts) | _ \<Rightarrow> 1) \<and>
         (distinct (folder_paths api_detail w) \<longrightarrow>
            card {k. w \<in> set (bucket org k)} = length (folder_paths api_detail w))"
proof -
  have s: "{k. w \<in> set (bucket org k)} = set (folder_paths api_detail w)"
    using in_bucket_iff[OF assms(1)] assms(2,3) by auto
  have "organize_loop api_detail (filter (\<lambda>w. \<not> is_archived w) workflow_list) [] = Inr org"
    using assms(1) by (simp add: organize_by_tags_def)
  from organize_loop_ids[OF this, of w] assms(2,3) have i: "wf_id w \<noteq> None" by simp
  show ?thesis
    using s count_bucket[OF assms(1,3)] length_folder_paths[OF i] by (simp add: distinct_card)
qed

text \<open>
  C2 as stated fails: an entity with the two tags \<open>a/b\<close> and
  \<open>a_b\<close> is in one bucket, twice, and not in two buckets.
\<close>

theorem organize_collision_counterexample:
  "organize_by_tags ex_detail [ex_collide]
     = Inr [(''Unknown Project/a_b'', [ex_collide, ex_collide])] \<and>
   tags ex_collide = Some [\<lparr>tag_name = Some ''a/b''\<rparr>, \<lparr>tag_name = Some ''a_b''\<rparr>] \<and>
   \<not> is_archived ex_collide \<and>
   {k. ex_collide \<in> set (bucket [(''Unknown Project/a_b'', [ex_collide, ex_collide])] k)}
     = {''Unknown Project/a_b''}"
proof -
  have "{k. ex_collide \<in> set (bucket [(''Unknown Project/a_b'', [ex_collide, ex_collide])] k)}
     = {''Unknown Project/a_b''}"
    by (auto simp: bucket_def split: if_splits)
  then show ?thesis using ex2 by (simp add: ex_collide_def is_archived_def)
qed

theorem organize_fan_out_witness:
  "organize_by_tags ex_detail [ex_prod, ex_untagged, ex_archived]
     = Inr [(''Acme/prod'', [ex_prod]), (''Acme/No Tag'', [ex_untagged])] \<and>
   {k. ex_prod \<in> set (bucket [(''Acme/prod'', [ex_prod]), (''Acme/No Tag'', [ex_untagged])] k)}
     = {''Acme/prod''} \<and>
   card {k. ex_prod \<in> set (bucket [(''Acme/prod'', [ex_prod]), (''Acme/No Tag'', [ex_untagged])] k)} = 1 \<and>
   {k. ex_untagged \<in> set (bucket [(''Acme/prod'', [ex_prod]), (''Acme/No Tag'', [ex_untagged])] k)}
     = {''Acme/No Tag''}"
proof -
  have p: "folder_paths ex_detail ex_prod = [''Acme/prod'']"
    by (simp add: folder_paths_def organize_eval ex_detail_def ex_prod_def)
  have u: "folder_paths ex_detail ex_untagged = [''Acme/No Tag'']"
    by (simp add: folder_paths_def organize_eval ex_detail_def ex_untagged_def)
  have ap: "\<not> is_archived ex_prod" and au: "\<not> is_archived ex_untagged"
    by (simp_all add: is_archived_def ex_prod_def ex_untagged_def)
  have mp: "ex_prod \<in> set [ex_prod, ex_untagged, ex_archived]"
    and mu: "ex_untagged \<in> set [ex_prod, ex_untagged, ex_archived]" by simp_all
  from organize_fan_out[OF ex1 mp ap] organize_fan_out[OF ex1 mu au] show ?thesis
    using ex1 by (simp add: p u)
qed

text \<open>
  C4, as amended. A tag without a \<open>name\<close> key gets the label
  \<open>Untagged\<close>, which is sanitized like every other label (and is left as it
  is); a tag with a name, the empty name included, keeps that name as its label.
\<close>

theorem missing_tag_name_untagged:
  assumes "organize_by_tags api_detail workflow_list = Inr org"
      and "w \<in> set workflow_list" and "\<not> is_archived w"
      and "wf_id w = Some wid" and "tags w = Some ts" and "t \<in> set ts"
  shows "(tag_name t = None \<longrightarrow>
            tag_label t = ''Untagged'' \<and>
            w \<in> set (bucket org (sanitize_filename (get_workflow_project api_detail wid) @ ''/''
                                   @ sanitize_filename ''Untagged''))) \<and>
         (\<forall>n. tag_name t = Some n \<longrightarrow>
            tag_label t = n \<and>
            w \<in> set (bucket org (sanitize_filename (get_workflow_project api_detail wid) @ ''/''
                                   @ sanitize_filename n))) \<and>
         sanitize_filename ''Untagged'' = ''Untagged''"
proof -
  from assms(5,6) have ne: "ts \<noteq> []" by auto
  have "sanitize_filename (get_workflow_project api_detail wid) @ ''/'' @ sanitize_filename (tag_label t)
          \<in> set (folder_paths api_detail w)"
    using assms(4,5,6) ne by (simp add: folder_paths_def Let_def)
  then have "w \<in> set (bucket org (sanitize_filename (get_workflow_project api_detail wid) @ ''/''
                                   @ sanitize_filename (tag_label t)))"
    using in_bucket_iff[OF assms(1)] assms(2,3) by simp
  then show ?thesis
    by (auto simp: tag_label_def sanitize_untagged)
qed

text \<open>
  C4 as stated fails for the empty name: the label stays empty, the key is
  \<open>project/\<close>, and the bucket \<open>project/Untagged\<close> does not exist.
\<close>

theorem empty_tag_name_counterexample:
  "organize_by_tags ex_detail [ex_blank] = Inr [(''Unknown Project/'', [ex_blank])] \<and>
   tags ex_blank = Some [\<lparr>tag_name = Some []\<rparr>] \<and>
   \<not> is_archived ex_blank \<and>
   bucket [(''Unknown Project/'', [ex_blank])] ''Unknown Project/Untagged'' = []"
  using ex3 by (simp add: ex_blank_def is_archived_def bucket_def)

theorem missing_tag_name_untagged_witness:
  "organize_by_tags ex_detail [ex_nameless] = Inr [(''Unknown Project/Untagged'', [ex_nameless])] \<and>
   tags ex_nameless = Some [\<lparr>tag_name = None\<rparr>] \<and>
   ex_nameless \<in> set (bucket [(''Unknown Project/Untagged'', [ex_nameless])]
      (sanitize_filename (get_workflow_project ex_detail ''6'') @ ''/'' @ sanitize_filename ''Untagged''))"
proof -
  have a: "\<not> is_archived ex_nameless" and i: "wf_id ex_nameless = Some ''6''"
    and t: "tags ex_nameless = Some [\<lparr>tag_name = None\<rparr>]"
    by (simp_all add: ex_nameless_def is_archived_def)
  have m: "\<lparr>tag_name = None\<rparr> \<in> set [\<lparr>tag_name = None\<rparr>]" by simp
  have w: "ex_nameless \<in> set [ex_nameless]" by simp
  from missing_tag_name_untagged[OF ex4 w a i t m] show ?thesis
    using ex4 t by auto
qed

section \<open>Properties of the paginated fetcher\<close>

lemma session_get_trace:
  "session_get A w ps = (resp, w') \<Longrightarrow> trace w' = trace w @ [GetEv ps resp]"
  by (auto simp: session_get_def split: prod.splits)

lemma issued_append: "trace w' = trace w @ evs \<Longrightarrow> issued w w' = evs"
  by (simp add: issued_def)

text \<open>
  What the three loops return, in terms of the requests of the run. The downloader returns
  the entities of all pages received, also after a failed request.
\<close>

lemma downloader_loop_result:
  "downloader_loop n A w cur acc = Some (res, w') \<Longrightarrow>
   \<exists>evs. trace w' = trace w @ evs \<and> res = acc @ listed evs"
proof (induction n arbitrary: w cur acc)
  case 0
  then show ?case by simp
next
  case (Suc n)
  obtain resp w1 where g: "session_get A w (page_params cur) = (resp, w1)"
    by (cases "session_get A w (page_params cur)")
  note t1 = session_get_trace[OF g]
  show ?case
  proof (cases resp)
    case GetFailed
    with Suc.prems g t1 show ?thesis by auto
  next
    case (GetPage d nc)
    show ?thesis
    proof (cases "truthy nc")
      case False
      with Suc.prems g t1 GetPage show ?thesis by auto
    next
      case True
      with Suc.prems g GetPage
      have "downloader_loop n A w1 nc (acc @ page_data d) = Some (res, w')" by simp
      from Suc.IH[OF this] obtain evs where
        "trace w' = trace w1 @ evs" "res = (acc @ page_data d) @ listed evs" by blast
      with t1 GetPage show ?thesis by auto
    qed
  qed
qed

text \<open>
  \<open>N8NBackup.get_all_workflows\<close> returns the empty list once a request has failed.
\<close>

lemma backup_loop_result:
  "backup_loop n A w cur acc = Some (res, w') \<Longrightarrow>
   \<exists>evs. trace w' = trace w @ evs \<and>
         res = (if list_ex get_failed evs then [] else acc @ listed evs)"
proof (induction n arbitrary: w cur acc)
  case 0
  then show ?case by simp
next
  case (Suc n)
  obtain resp w1 where g: "session_get A w (page_params cur) = (resp, w1)"
    by (cases "session_get A w (page_params cur)")
  note t1 = session_get_trace[OF g]
  show ?case
  proof (cases resp)
    case GetFailed
    with Suc.prems g t1 show ?thesis by auto
  next
    case (GetPage d nc)
    show ?thesis
    proof (cases "truthy nc")
      case False
      with Suc.prems g t1 GetPage show ?thesis by auto
    next
      case True
      with Suc.prems g GetPage
      have "backup_loop n A w1 nc (acc @ page_data d) = Some (res, w')" by simp
      from Suc.IH[OF this] obtain evs where
        "trace w' = trace w1 @ evs"
        "res = (if list_ex get_failed evs then [] else (acc @ page_data d) @ listed evs)" by blast
      with t1 GetPage show ?thesis by auto
    qed
  qed
qed

lemma add_page_append: "add_page (xs @ ys) m = add_page ys (add_page xs m)"
  by (simp add: add_page_def)

text \<open>
  \<open>get_existing_workflows\<close> returns the empty map once a request has failed.
\<close>

lemma existing_loop_result:
  "existing_loop n A w cur ex = Some (res, w') \<Longrightarrow>
   \<exists>evs. trace w' = trace w @ evs \<and>
         res = (if list_ex get_failed evs then Map.empty else add_page (listed evs) ex)"
proof (induction n arbitrary: w cur ex)
  case 0
  then show ?case by simp
next
  case (Suc n)
  obtain resp w1 where g: "session_get A w (page_params cur) = (resp, w1)"
    by (cases "session_get A w (page_params cur)")
  note t1 = session_get_trace[OF g]
  show ?case
  proof (cases resp)
    case GetFailed
    with Suc.prems g t1 show ?thesis by auto
  next
    case (GetPage d nc)
    show ?thesis
    proof (cases "truthy nc")
      case False
      with Suc.prems g t1 GetPage show ?thesis by (auto simp: add_page_def)
    next
      case True
      with Suc.prems g GetPage
      have "existing_loop n A w1 nc (add_page (page_data d) ex) = Some (res, w')" by simp
      from Suc.IH[OF this] obtain evs where
        "trace w' = trace w1 @ evs"
        "res = (if list_ex get_failed evs then Map.empty
                else add_page (listed evs) (add_page (page_data d) ex))" by blast
      with t1 GetPage show ?thesis by (auto simp: add_page_append)
    qed
  qed
qed

lemma backup_get_all_workflows_failure:
  assumes "backup_get_all_workflows n A w = Some (res, w')"
  shows "res = (if list_ex get_failed (issued w w') then [] else listed (issued w w'))"
  using backup_loop_result[of n A w None "[]" res w'] assms
  by (auto simp: backup_get_all_workflows_def issued_append)

lemma get_existing_workflows_result:
  assumes "get_existing_workflows n A w = Some (res, w')"
  shows "res = (if list_ex get_failed (issued w w') then Map.empty
                else add_page (listed (issued w w')) Map.empty)"
  using existing_loop_result[of n A w None Map.empty res w'] assms
  by (auto simp: get_existing_workflows_def issued_append)

lemma downloader_get_all_workflows_result:
  assumes "downloader_get_all_workflows n A w = Some (res, w')"
  shows "res = listed (issued w w')"
  using downloader_loop_result[of n A w None "[]" res w'] assms
  by (auto simp: downloader_get_all_workflows_def issued_append)

lemma backup_example:
  "backup_get_all_workflows 2 script_api
      \<lparr>remote = [GetPage (Some [ex_prod]) (Some ''c1''), GetFailed], trace = []\<rparr>
   = Some ([],
       \<lparr>remote = [],
        trace = [GetEv \<lparr>p_limit = 100, p_cursor = None\<rparr> (GetPage (Some [ex_prod]) (Some ''c1'')),
                 GetEv \<lparr>p_limit = 100, p_cursor = Some ''c1''\<rparr> GetFailed]\<rparr>)"
  by (simp add: backup_get_all_workflows_def numeral_2_eq_2 session_get_def script_api_def
        page_params_def truthy_def page_data_def)

lemma fold_add_existing_snoc:
  "fold add_existing (es @ [e]) m = add_existing e (fold add_existing es m)"
  by simp

lemma named_snoc:
  "named name (es @ [e]) =
     (if wf_name e = Some name \<and> name \<noteq> [] \<and> truthy (wf_id e) then named name es @ [e]
      else named name es)"
  by (simp add: named_def)

lemma add_existing_lookup:
  "add_existing e m name =
     (if wf_name e = Some name \<and> name \<noteq> [] \<and> truthy (wf_id e) then wf_id e else m name)"
  by (auto simp: add_existing_def truthy_def split: option.splits)

lemma add_page_lookup:
  "add_page es m name = (if named name es = [] then m name else wf_id (last (named name es)))"
proof (induction es rule: rev_induct)
  case Nil
  then show ?case by (simp add: add_page_def named_def)
next
  case (snoc e es)
  have "add_page (es @ [e]) m name = add_existing e (add_page es m) name"
    by (simp add: add_page_def)
  then show ?case
    using snoc by (simp add: add_existing_lookup named_snoc)
qed

lemmas fetch_eval =
  get_existing_workflows_def session_get_def script_api_def page_params_def truthy_def
  page_data_def add_page_def add_existing_def numeral_2_eq_2

lemma ex_listing_run:
  "get_existing_workflows 2 script_api \<lparr>remote = ex_listing, trace = []\<rparr> =
     Some ([''Invoice Sync'' \<mapsto> ''3'', ''Report'' \<mapsto> ''5''],
           \<lparr>remote = [],
            trace = [GetEv \<lparr>p_limit = 100, p_cursor = None\<rparr>
                       (GetPage (Some [ex_dup1, ex_noname, ex_dup2]) (Some ''c1'')),
                     GetEv \<lparr>p_limit = 100, p_cursor = Some ''c1''\<rparr>
                       (GetPage (Some [ex_noid, ex_report]) None)]\<rparr>)"
  by (simp add: fetch_eval ex_listing_def ex_dup1_def ex_noname_def ex_dup2_def ex_noid_def ex_report_def)

text \<open>
  C1. The claim holds for \<open>N8NBackup.get_all_workflows\<close>
  (\<open>backup_get_all_workflows_failure\<close>) and for
  \<open>get_existing_workflows\<close> (\<open>get_existing_workflows_result\<close>).
  \<open>N8NWorkflowDownloader.get_all_workflows\<close> breaks out of the loop instead:
  when the first page arrives and the second request fails, it returns the entities of the
  first page and not the empty sequence.
\<close>

theorem downloader_keeps_fetched_pages:
  "downloader_get_all_workflows 2 script_api
      \<lparr>remote = [GetPage (Some [ex_prod]) (Some ''c1''), GetFailed], trace = []\<rparr>
   = Some ([ex_prod],
       \<lparr>remote = [],
        trace = [GetEv \<lparr>p_limit = 100, p_cursor = None\<rparr> (GetPage (Some [ex_prod]) (Some ''c1'')),
                 GetEv \<lparr>p_limit = 100, p_cursor = Some ''c1''\<rparr> GetFailed]\<rparr>)"
  by (simp add: downloader_get_all_workflows_def numeral_2_eq_2 session_get_def script_api_def
        page_params_def truthy_def page_data_def)

text \<open>
  The loop of \<open>get_existing_workflows\<close> follows the cursors to the end: a run that
  returns has issued the complete pagination, and a bound that covers the complete
  pagination is enough for the run to return.
\<close>

lemma session_get_remote:
  "session_get A w ps = (resp, w') \<Longrightarrow> api_get A (remote w) ps = (resp, remote w')"
  by (auto simp: session_get_def split: prod.splits)

lemma session_get_eq:
  "api_get A (remote w) ps = (resp, r1) \<Longrightarrow>
   session_get A w ps = (resp, \<lparr>remote = r1, trace = trace w @ [GetEv ps resp]\<rparr>)"
  by (simp add: session_get_def)

lemma existing_loop_chain:
  "existing_loop n A w cur ex = Some (res, w') \<Longrightarrow>
   \<exists>evs. trace w' = trace w @ evs \<and> is_chain A (remote w) cur evs (remote w')"
proof (induction n arbitrary: w cur ex)
  case 0
  then show ?case by simp
next
  case (Suc n)
  obtain resp w1 where g: "session_get A w (page_params cur) = (resp, w1)"
    by (cases "session_get A w (page_params cur)")
  note t1 = session_get_trace[OF g]
  note r1 = session_get_remote[OF g]
  show ?case
  proof (cases resp)
    case GetFailed
    with Suc.prems g have "w' = w1" by simp
    with t1 r1 GetFailed show ?thesis by simp
  next
    case (GetPage d nc)
    show ?thesis
    proof (cases "truthy nc")
      case False
      with Suc.prems g GetPage have "w' = w1" by simp
      with t1 r1 GetPage False show ?thesis by simp
    next
      case True
      with Suc.prems g GetPage
      have "existing_loop n A w1 nc (add_page (page_data d) ex) = Some (res, w')" by simp
      from Suc.IH[OF this] obtain evs where
        e: "trace w' = trace w1 @ evs" "is_chain A (remote w1) nc evs (remote w')" by blast
      have "trace w' = trace w @ (GetEv (page_params cur) resp # evs)"
        using e(1) t1 by simp
      moreover have "is_chain A (remote w) cur (GetEv (page_params cur) resp # evs) (remote w')"
        using e(2) r1 GetPage True by simp
      ultimately show ?thesis by blast
    qed
  qed
qed

lemma existing_loop_complete:
  "is_chain A (remote w) cur evs r' \<Longrightarrow> length evs \<le> n \<Longrightarrow>
   existing_loop n A w cur ex =
     Some (if list_ex get_failed evs then Map.empty else add_page (listed evs) ex,
           \<lparr>remote = r', trace = trace w @ evs\<rparr>)"
proof (induction evs arbitrary: n w cur ex)
  case Nil
  then show ?case by simp
next
  case (Cons ev evs)
  from Cons.prems(2) obtain m where n: "n = Suc m" and m: "length evs \<le> m"
    by (cases n) auto
  obtain resp r1 where a: "api_get A (remote w) (page_params cur) = (resp, r1)"
    by (cases "api_get A (remote w) (page_params cur)")
  note g = session_get_eq[OF a]
  show ?case
  proof (cases resp)
    case GetFailed
    with Cons.prems(1) a show ?thesis by (simp add: n g)
  next
    case (GetPage d nc)
    show ?thesis
    proof (cases "truthy nc")
      case False
      with Cons.prems(1) a GetPage show ?thesis by (simp add: n g add_page_def)
    next
      case True
      let ?w1 = "\<lparr>remote = r1, trace = trace w @ [GetEv (page_params cur) resp]\<rparr>"
      from Cons.prems(1) a GetPage True
      have ev: "ev = GetEv (page_params cur) (GetPage d nc)" and c: "is_chain A (remote ?w1) nc evs r'"
        by simp_all
      from Cons.IH[OF c m, of "add_page (page_data d) ex"] True GetPage ev
      show ?thesis by (simp add: n g add_page_append)
    qed
  qed
qed

lemma ex_listing_chain:
  "is_chain script_api ex_listing None
     [GetEv \<lparr>p_limit = 100, p_cursor = None\<rparr>
        (GetPage (Some [ex_dup1, ex_noname, ex_dup2]) (Some ''c1'')),
      GetEv \<lparr>p_limit = 100, p_cursor = Some ''c1''\<rparr>
        (GetPage (Some [ex_noid, ex_report]) None)] []"
  by (simp add: script_api_def ex_listing_def page_params_def truthy_def)

lemma ex_listing_bound:
  "get_existing_workflows 1 script_api \<lparr>remote = ex_listing, trace = []\<rparr> = None"
  by (simp add: get_existing_workflows_def session_get_def script_api_def page_params_def
        truthy_def ex_listing_def)

text \<open>
  C10. A run of \<open>get_existing_workflows\<close> that returns has issued the complete
  pagination of the server, every page up to the one without a next cursor; when no
  request failed, a name is in the map exactly when a listed entity has that name,
  non-empty, and a non-empty id (entities without a name or an id are left out), and the
  map gives the id of the last such entity in pagination order. Conversely, whenever the
  complete pagination has no failed request and the bound on the page requests covers it,
  the run returns, with that map over the entities of all its pages.
\<close>

theorem existing_map_last_wins:
  "(get_existing_workflows n A w = Some (existing, w') \<longrightarrow>
      is_chain A (remote w) None (issued w w') (remote w') \<and>
      (\<not> list_ex get_failed (issued w w') \<longrightarrow>
         (\<forall>name. existing name =
            (if named name (listed (issued w w')) = [] then None
             else wf_id (last (named name (listed (issued w w')))))))) \<and>
   (is_chain A (remote w) None evs r' \<and> \<not> list_ex get_failed evs \<and> length evs \<le> n \<longrightarrow>
      (\<exists>m. get_existing_workflows n A w = Some (m, \<lparr>remote = r', trace = trace w @ evs\<rparr>) \<and>
           (\<forall>name. m name =
              (if named name (listed evs) = [] then None
               else wf_id (last (named name (listed evs)))))))"
proof (intro conjI impI)
  assume run: "get_existing_workflows n A w = Some (existing, w')"
  from existing_loop_chain[of n A w None Map.empty existing w'] run
  show "is_chain A (remote w) None (issued w w') (remote w')"
    by (auto simp: get_existing_workflows_def issued_append)
  assume "\<not> list_ex get_failed (issued w w')"
  with get_existing_workflows_result[OF run]
  show "\<forall>name. existing name =
            (if named name (listed (issued w w')) = [] then None
             else wf_id (last (named name (listed (issued w w')))))"
    by (simp add: add_page_lookup)
next
  assume h: "is_chain A (remote w) None evs r' \<and> \<not> list_ex get_failed evs \<and> length evs \<le> n"
  then have "get_existing_workflows n A w =
     Some (add_page (listed evs) Map.empty, \<lparr>remote = r', trace = trace w @ evs\<rparr>)"
    using existing_loop_complete[of A w None evs r' n Map.empty]
    by (simp add: get_existing_workflows_def)
  then show "\<exists>m. get_existing_workflows n A w = Some (m, \<lparr>remote = r', trace = trace w @ evs\<rparr>) \<and>
           (\<forall>name. m name =
              (if named name (listed evs) = [] then None
               else wf_id (last (named name (listed evs)))))"
    by (simp add: add_page_lookup)
qed

theorem existing_map_last_wins_witness:
  "is_chain script_api ex_listing None
     [GetEv \<lparr>p_limit = 100, p_cursor = None\<rparr>
        (GetPage (Some [ex_dup1, ex_noname, ex_dup2]) (Some ''c1'')),
      GetEv \<lparr>p_limit = 100, p_cursor = Some ''c1''\<rparr>
        (GetPage (Some [ex_noid, ex_report]) None)] [] \<and>
   get_existing_workflows 2 script_api \<lparr>remote = ex_listing, trace = []\<rparr> =
     Some ([''Invoice Sync'' \<mapsto> ''3'', ''Report'' \<mapsto> ''5''],
           \<lparr>remote = [],
            trace = [GetEv \<lparr>p_limit = 100, p_cursor = None\<rparr>
                       (GetPage (Some [ex_dup1, ex_noname, ex_dup2]) (Some ''c1'')),
                     GetEv \<lparr>p_limit = 100, p_cursor = Some ''c1''\<rparr>
                       (GetPage (Some [ex_noid, ex_report]) None)]\<rparr>) \<and>
   named ''Invoice Sync'' [ex_dup1, ex_noname, ex_dup2, ex_noid, ex_report] = [ex_dup1, ex_dup2] \<and>
   [''Invoice Sync'' \<mapsto> ''3'', ''Report'' \<mapsto> ''5''] ''Invoice Sync'' = wf_id ex_dup2 \<and>
   named ''Report'' [ex_dup1, ex_noname, ex_dup2, ex_noid, ex_report] = [ex_report] \<and>
   [''Invoice Sync'' \<mapsto> ''3'', ''Report'' \<mapsto> ''5''] ''Report'' = wf_id ex_report \<and>
   get_existing_workflows 1 script_api \<lparr>remote = ex_listing, trace = []\<rparr> = None"
proof -
  let ?evs = "[GetEv \<lparr>p_limit = 100, p_cursor = None\<rparr>
                 (GetPage (Some [ex_dup1, ex_noname, ex_dup2]) (Some ''c1'')),
               GetEv \<lparr>p_limit = 100, p_cursor = Some ''c1''\<rparr>
                 (GetPage (Some [ex_noid, ex_report]) None)]"
  let ?w = "\<lparr>remote = ex_listing, trace = []\<rparr>"
  have c: "is_chain script_api (remote ?w) None ?evs []"
    using ex_listing_chain by simp
  have nf: "\<not> list_ex get_failed ?evs" by simp
  have n: "named ''Invoice Sync'' [ex_dup1, ex_noname, ex_dup2, ex_noid, ex_report] = [ex_dup1, ex_dup2]"
    and r: "named ''Report'' [ex_dup1, ex_noname, ex_dup2, ex_noid, ex_report] = [ex_report]"
    by (simp_all add: named_def truthy_def ex_dup1_def ex_noname_def ex_dup2_def ex_noid_def ex_report_def)
  have l: "length ?evs \<le> 2" by simp
  from existing_map_last_wins[of 2 script_api ?w _ _ ?evs "[]"] c nf l
  obtain m where m: "get_existing_workflows 2 script_api ?w = Some (m, \<lparr>remote = [], trace = trace ?w @ ?evs\<rparr>)"
    and v: "\<forall>name. m name = (if named name (listed ?evs) = [] then None
                               else wf_id (last (named name (listed ?evs))))"
    by blast
  from m ex_listing_run have "m = [''Invoice Sync'' \<mapsto> ''3'', ''Report'' \<mapsto> ''5'']" by simp
  with v have "\<forall>name. [''Invoice Sync'' \<mapsto> ''3'', ''Report'' \<mapsto> ''5''] name =
                 (if named name (listed ?evs) = [] then None
                  else wf_id (last (named name (listed ?evs))))" by simp
  then have "[''Invoice Sync'' \<mapsto> ''3'', ''Report'' \<mapsto> ''5''] ''Invoice Sync'' = wf_id ex_dup2"
    and "[''Invoice Sync'' \<mapsto> ''3'', ''Report'' \<mapsto> ''5''] ''Report'' = wf_id ex_report"
    using n r by (simp_all add: page_data_def del: fun_upd_apply)
  then show ?thesis
    using ex_listing_chain ex_listing_run ex_listing_bound n r by simp
qed

section \<open>Properties of the restore reconciler\<close>

lemma map_of_dict_set:
  "map_of (dict_set kvs k v) k' = (if k' = k then Some v else map_of kvs k')"
proof -
  have m: "map_of (map (\<lambda>(a, b). if a = k then (a, v) else (a, b)) xs) k'
             = (if k' = k then map_option (\<lambda>_. v) (map_of xs k') else map_of xs k')" for xs
    by (induction xs) auto
  show ?thesis
  proof (cases "k \<in> set (map fst kvs)")
    case True
    then obtain x where "map_of kvs k = Some x"
      by (metis map_of_eq_None_iff not_Some_eq set_map)
    with True show ?thesis by (simp add: dict_set_def m)
  next
    case False
    then have "map_of kvs k = None" by (simp add: map_of_eq_None_iff)
    with False show ?thesis by (auto simp: dict_set_def map_add_def split: option.splits)
  qed
qed

lemma map_of_filter_key:
  "map_of (filter (\<lambda>(k, v). P k) kvs) k' = (if P k' then map_of kvs k' else None)"
  by (induction kvs) auto

lemma clean_fields:
  "map_of (clean_workflow_for_api workflow_data) k =
     (if k = ''settings'' then Some (JObj [])
      else if k \<in> set allowed_fields then map_of workflow_data k else None)"
  by (simp add: clean_workflow_for_api_def map_of_dict_set map_of_filter_key)

lemma session_post_eq:
  "api_post A (remote w) body = (resp, r') \<Longrightarrow>
   session_post A w body = (resp, \<lparr>remote = r', trace = trace w @ [PostEv body resp]\<rparr>)"
  by (simp add: session_post_def)

lemma create_workflow_eq:
  "api_post A (remote w) (JObj (clean_workflow_for_api workflow_data)) = (resp, r') \<Longrightarrow>
   create_workflow A w workflow_data =
     (case resp of PostFailed \<Rightarrow> None | PostOk i \<Rightarrow> i,
      \<lparr>remote = r', trace = trace w @ [PostEv (JObj (clean_workflow_for_api workflow_data)) resp]\<rparr>)"
  by (simp add: create_workflow_def session_post_eq split: post_response.splits)

lemma ex_unwrap: "unwrap_backup (JObj ex_payload) = Inr (JObj ex_payload)"
  by (simp add: ex_payload_def)

lemma ex_name: "(case map_of ex_payload ''name'' of None \<Rightarrow> JStr ''Unnamed'' | Some v \<Rightarrow> v) = JStr ''Invoice Sync''"
  by (simp add: ex_payload_def)

lemma restore_workflow_raises:
  "raises file_path existing \<Longrightarrow>
   restore_workflow A w file_path existing mode = (exception_result file_path, w)"
  by (auto simp: raises_def restore_workflow_def exception_result_def Let_def
           split: read_result.splits sum.splits json.splits)

lemma restore_workflow_file:
  "restore_workflow A w file_path existing mode = (r, w') \<Longrightarrow> r_file r = f_name file_path"
  by (auto simp: restore_workflow_def Let_def
           split: read_result.splits sum.splits json.splits if_splits prod.splits bool.splits)

lemma restore_workflow_consistent:
  "restore_workflow A w file_path existing mode = (r, w') \<Longrightarrow>
   (action r = Some Created \<or> action r = Some CreatedRenamed \<longrightarrow> status r = Success) \<and>
   (status r = Error \<longleftrightarrow> raises file_path existing)"
  by (auto simp: restore_workflow_def raises_def Let_def
           split: read_result.splits sum.splits json.splits if_splits prod.splits bool.splits)

lemma tallied_update:
  assumes "tallied st"
      and "action r = Some Created \<or> action r = Some CreatedRenamed \<Longrightarrow> status r = Success"
  shows "tallied (update_counters (st\<lparr>results := results st @ [r]\<rparr>) r)"
proof (cases "status r")
  case Success
  with assms show ?thesis by (auto simp: tallied_def update_counters_def)
next
  case Unknown
  with assms show ?thesis by (auto simp: tallied_def update_counters_def)
next
  case Skipped
  with assms show ?thesis by (auto simp: tallied_def update_counters_def)
next
  case Failed
  with assms show ?thesis by (auto simp: tallied_def update_counters_def)
next
  case Error
  with assms show ?thesis by (auto simp: tallied_def update_counters_def)
qed

lemma restore_loop_tallied:
  "tallied st \<Longrightarrow> restore_loop A w files existing mode st = (st', w') \<Longrightarrow> tallied st'"
proof (induction files arbitrary: w st)
  case Nil
  then show ?case by simp
next
  case (Cons f files)
  obtain r w1 where s: "restore_workflow A w f existing mode = (r, w1)"
    by (cases "restore_workflow A w f existing mode")
  from restore_workflow_consistent[OF s]
  have "tallied (update_counters (st\<lparr>results := results st @ [r]\<rparr>) r)"
    using tallied_update[OF Cons.prems(1)] by blast
  moreover have "restore_loop A w1 files existing mode
                   (update_counters (st\<lparr>results := results st @ [r]\<rparr>) r) = (st', w')"
    using Cons.prems(2) s by simp
  ultimately show ?case by (rule Cons.IH)
qed

text \<open>
  \<open>restore_from_backup\<close> returns whenever the listing of the existing
  workflows does; no file can make it fail.
\<close>

lemma restore_from_backup_returns:
  "get_existing_workflows n A w = Some x \<Longrightarrow>
   \<exists>y. restore_from_backup n A w rglob mode dry_run = Some y"
  by (cases x) (simp add: restore_from_backup_def Let_def)

lemma update_counters_results:
  "results (update_counters st r) = results st"
  by (simp add: update_counters_def)

lemma restore_loop_append:
  "restore_loop A w (xs @ ys) existing mode st =
     (case restore_loop A w xs existing mode st of
        (st1, w1) \<Rightarrow> restore_loop A w1 ys existing mode st1)"
  by (induction xs arbitrary: w st) (auto split: prod.splits)

lemma restore_loop_files:
  "restore_loop A w files existing mode st = (st', w') \<Longrightarrow>
   map r_file (results st') = map r_file (results st) @ map f_name files"
proof (induction files arbitrary: w st)
  case Nil
  then show ?case by simp
next
  case (Cons f files)
  obtain r w1 where s: "restore_workflow A w f existing mode = (r, w1)"
    by (cases "restore_workflow A w f existing mode")
  have "restore_loop A w1 files existing mode
          (update_counters (st\<lparr>results := results st @ [r]\<rparr>) r) = (st', w')"
    using Cons.prems s by simp
  from Cons.IH[OF this] restore_workflow_file[OF s] show ?case
    by (simp add: update_counters_results)
qed

lemma ex_files: "find_backup_files [ex_index, ex_file, ex_broken] = [ex_broken, ex_file]"
  by (simp add: find_backup_files_def ex_index_def ex_file_def ex_broken_def)

lemma ex_existing:
  "get_existing_workflows (Suc 0) mem_api \<lparr>remote = ex_remote, trace = []\<rparr> =
     Some ([''Invoice Sync'' \<mapsto> ''7''],
           \<lparr>remote = ex_remote,
            trace = [GetEv \<lparr>p_limit = 100, p_cursor = None\<rparr>
                       (GetPage (Some [\<lparr>wf_id = Some ''7'', wf_name = Some ''Invoice Sync'',
                                        isArchived = None, tags = None\<rparr>]) None)]\<rparr>)"
  by (simp add: get_existing_workflows_def session_get_def mem_api_def mem_summary_def page_params_def
        truthy_def page_data_def add_page_def add_existing_def ex_remote_def)

lemma ex_raises: "raises ex_broken existing"
  by (simp add: raises_def ex_broken_def)

lemma ex_skip:
  "restore_workflow mem_api w ex_file [''Invoice Sync'' \<mapsto> ''7''] ''skip'' =
     (\<lparr>r_file = ''Invoice Sync.json'', status = Skipped, action = Some Exists, workflow_id = Some ''7''\<rparr>, w)"
  by (simp add: restore_workflow_def ex_file_def ex_payload_def truthy_def)

lemma ex_broken_name: "f_name ex_broken = ''Broken.json''"
  by (simp add: ex_broken_def)

lemma ex_run:
  "restore_from_backup (Suc 0) mem_api \<lparr>remote = ex_remote, trace = []\<rparr>
       [ex_index, ex_file, ex_broken] ''skip'' False =
     Some (\<lparr>total = 2, created = 0, updated = 0, skipped = 1, failed = 1,
            results = [\<lparr>r_file = ''Broken.json'', status = Error, action = Some Exception,
                        workflow_id = None\<rparr>,
                       \<lparr>r_file = ''Invoice Sync.json'', status = Skipped, action = Some Exists,
                        workflow_id = Some ''7''\<rparr>]\<rparr>,
           \<lparr>remote = ex_remote,
            trace = [GetEv \<lparr>p_limit = 100, p_cursor = None\<rparr>
                       (GetPage (Some [\<lparr>wf_id = Some ''7'', wf_name = Some ''Invoice Sync'',
                                        isArchived = None, tags = None\<rparr>]) None)]\<rparr>)"
  by (simp add: restore_from_backup_def ex_files ex_existing ex_skip
        restore_workflow_raises[OF ex_raises] exception_result_def update_counters_def ex_broken_name)

lemma ex_loop:
  "restore_loop mem_api \<lparr>remote = ex_remote, trace = []\<rparr> [ex_broken, ex_file]
       [''Invoice Sync'' \<mapsto> ''7''] ''skip''
       \<lparr>total = 2, created = 0, updated = 0, skipped = 0, failed = 0, results = []\<rparr> =
     (\<lparr>total = 2, created = 0, updated = 0, skipped = 1, failed = 1,
       results = [\<lparr>r_file = ''Broken.json'', status = Error, action = Some Exception,
                   workflow_id = None\<rparr>,
                  \<lparr>r_file = ''Invoice Sync.json'', status = Skipped, action = Some Exists,
                   workflow_id = Some ''7''\<rparr>]\<rparr>,
      \<lparr>remote = ex_remote, trace = []\<rparr>)"
  by (simp add: restore_workflow_raises[OF ex_raises] ex_skip update_counters_def
        exception_result_def ex_broken_name)

text \<open>
  C6. When the payload's name is not in the existence map, \<open>restore_workflow\<close>
  issues one request, a POST whose body holds \<open>name\<close>, \<open>nodes\<close>
  and \<open>connections\<close> as the payload has them, an empty \<open>settings\<close>
  object and nothing else. When the response carries a non-empty id the record is
  \<open>success\<close>, \<open>created\<close> with that id; otherwise it is
  \<open>failed\<close>, \<open>create_failed\<close>.
\<close>

theorem restore_creates_missing:
  assumes "f_read file_path = Parsed backup_data"
      and "unwrap_backup backup_data = Inr (JObj workflow_data)"
      and "existing_get existing
             (case map_of workflow_data ''name'' of None \<Rightarrow> JStr ''Unnamed'' | Some v \<Rightarrow> v) = Inr None"
      and "body = JObj (clean_workflow_for_api workflow_data)"
      and "api_post A (remote w) body = (resp, r')"
  shows "restore_workflow A w file_path existing mode =
           (case resp of
              PostOk (Some (c # cs)) \<Rightarrow>
                \<lparr>r_file = f_name file_path, status = Success, action = Some Created,
                 workflow_id = Some (c # cs)\<rparr>
            | _ \<Rightarrow>
                \<lparr>r_file = f_name file_path, status = Failed, action = Some CreateFailed,
                 workflow_id = None\<rparr>,
            \<lparr>remote = r', trace = trace w @ [PostEv body resp]\<rparr>) \<and>
         (\<forall>k. map_of (clean_workflow_for_api workflow_data) k =
               (if k = ''settings'' then Some (JObj [])
                else if k \<in> {''name'', ''nodes'', ''connections''} then map_of workflow_data k
                else None))"
proof -
  have c: "create_workflow A w workflow_data =
     (case resp of PostFailed \<Rightarrow> None | PostOk i \<Rightarrow> i,
      \<lparr>remote = r', trace = trace w @ [PostEv body resp]\<rparr>)"
    using create_workflow_eq assms(4,5) by simp
  have "restore_workflow A w file_path existing mode =
           (case resp of
              PostOk (Some (c # cs)) \<Rightarrow>
                \<lparr>r_file = f_name file_path, status = Success, action = Some Created,
                 workflow_id = Some (c # cs)\<rparr>
            | _ \<Rightarrow>
                \<lparr>r_file = f_name file_path, status = Failed, action = Some CreateFailed,
                 workflow_id = None\<rparr>,
            \<lparr>remote = r', trace = trace w @ [PostEv body resp]\<rparr>)"
    using assms(1,2,3)
    by (simp add: restore_workflow_def c truthy_def
          split: post_response.splits option.splits list.splits)
  then show ?thesis
    by (simp add: clean_fields allowed_fields_def)
qed

theorem restore_creates_missing_witness:
  "restore_workflow mem_api \<lparr>remote = [], trace = []\<rparr> ex_file Map.empty ''skip'' =
     (\<lparr>r_file = ''Invoice Sync.json'', status = Success, action = Some Created, workflow_id = Some ''new''\<rparr>,
      \<lparr>remote = [(''new'', JObj [(''name'', JStr ''Invoice Sync''),
                                  (''nodes'', JArr [JObj [(''type'', JStr ''webhook'')]]),
                                  (''connections'', JObj []), (''settings'', JObj [])])],
       trace = [PostEv (JObj [(''name'', JStr ''Invoice Sync''),
                              (''nodes'', JArr [JObj [(''type'', JStr ''webhook'')]]),
                              (''connections'', JObj []), (''settings'', JObj [])])
                  (PostOk (Some ''new''))]\<rparr>)"
proof -
  have r: "f_read ex_file = Parsed (JObj ex_payload)" by (simp add: ex_file_def)
  have n: "existing_get Map.empty
             (case map_of ex_payload ''name'' of None \<Rightarrow> JStr ''Unnamed'' | Some v \<Rightarrow> v) = Inr None"
    by (simp add: ex_name)
  have b: "JObj (clean_workflow_for_api ex_payload) =
             JObj [(''name'', JStr ''Invoice Sync''),
                   (''nodes'', JArr [JObj [(''type'', JStr ''webhook'')]]),
                   (''connections'', JObj []), (''settings'', JObj [])]"
    by (simp add: clean_workflow_for_api_def allowed_fields_def dict_set_def ex_payload_def)
  have p: "api_post mem_api (remote \<lparr>remote = [], trace = []\<rparr>) (JObj (clean_workflow_for_api ex_payload))
             = (PostOk (Some ''new''),
                [(''new'', JObj (clean_workflow_for_api ex_payload))])"
    by (simp add: mem_api_def)
  from restore_creates_missing[OF r ex_unwrap n refl p, of "''skip''"]
  show ?thesis by (simp add: b ex_file_def)
qed

text \<open>
  C7. When the payload's name is in the existence map (with the non-empty id that
  \<open>get_existing_workflows\<close> stores) and the mode is \<open>rename\<close>,
  \<open>restore_workflow\<close> issues one request: a POST of the cleaned payload whose
  name is the original name followed by \<open> (restored <timestamp>)\<close>. It issues
  no PUT, and the remote state afterwards is what that POST leaves, so the entity of the
  original name is not touched. A response with a non-empty id gives
  \<open>success\<close>, \<open>created_renamed\<close>.
\<close>

theorem restore_rename_creates_copy:
  assumes "f_read file_path = Parsed backup_data"
      and "unwrap_backup backup_data = Inr (JObj workflow_data)"
      and "(case map_of workflow_data ''name'' of None \<Rightarrow> JStr ''Unnamed'' | Some v \<Rightarrow> v) = JStr name"
      and "existing name = Some existing_id" and "existing_id \<noteq> []"
      and "mode = ''rename''"
      and "new_name = name @ '' (restored '' @ api_clock A (remote w) @ '')''"
      and "body = JObj (clean_workflow_for_api (dict_set workflow_data ''name'' (JStr new_name)))"
      and "api_post A (remote w) body = (resp, r')"
  shows "restore_workflow A w file_path existing mode =
           (case resp of
              PostOk (Some (c # cs)) \<Rightarrow>
                \<lparr>r_file = f_name file_path, status = Success, action = Some CreatedRenamed,
                 workflow_id = Some (c # cs)\<rparr>
            | _ \<Rightarrow>
                \<lparr>r_file = f_name file_path, status = Failed, action = Some CreateFailed,
                 workflow_id = None\<rparr>,
            \<lparr>remote = r', trace = trace w @ [PostEv body resp]\<rparr>) \<and>
         (\<forall>k. map_of (clean_workflow_for_api (dict_set workflow_data ''name'' (JStr new_name))) k =
               (if k = ''settings'' then Some (JObj [])
                else if k = ''name'' then Some (JStr new_name)
                else if k \<in> {''nodes'', ''connections''} then map_of workflow_data k
                else None))"
proof -
  have c: "create_workflow A w (dict_set workflow_data ''name'' (JStr new_name)) =
     (case resp of PostFailed \<Rightarrow> None | PostOk i \<Rightarrow> i,
      \<lparr>remote = r', trace = trace w @ [PostEv body resp]\<rparr>)"
    using create_workflow_eq assms(8,9) by simp
  have "restore_workflow A w file_path existing mode =
           (case resp of
              PostOk (Some (c # cs)) \<Rightarrow>
                \<lparr>r_file = f_name file_path, status = Success, action = Some CreatedRenamed,
                 workflow_id = Some (c # cs)\<rparr>
            | _ \<Rightarrow>
                \<lparr>r_file = f_name file_path, status = Failed, action = Some CreateFailed,
                 workflow_id = None\<rparr>,
            \<lparr>remote = r', trace = trace w @ [PostEv body resp]\<rparr>)"
    using assms(1,2,3,4,5,6) c[unfolded assms(7)]
    by (simp add: restore_workflow_def truthy_def assms(7)
          split: post_response.splits option.splits list.splits)
  then show ?thesis
    by (simp add: clean_fields allowed_fields_def map_of_dict_set)
qed

theorem restore_rename_creates_copy_witness:
  "restore_workflow mem_api \<lparr>remote = ex_remote, trace = []\<rparr> ex_file
       [''Invoice Sync'' \<mapsto> ''7''] ''rename'' =
     (\<lparr>r_file = ''Invoice Sync.json'', status = Success, action = Some CreatedRenamed,
       workflow_id = Some ''new+''\<rparr>,
      \<lparr>remote = [(''7'', JObj [(''name'', JStr ''Invoice Sync''), (''nodes'', JArr [])]),
                 (''new+'', JObj [(''name'', JStr ''Invoice Sync (restored 20260112_111221)''),
                                  (''nodes'', JArr [JObj [(''type'', JStr ''webhook'')]]),
                                  (''connections'', JObj []), (''settings'', JObj [])])],
       trace = [PostEv (JObj [(''name'', JStr ''Invoice Sync (restored 20260112_111221)''),
                              (''nodes'', JArr [JObj [(''type'', JStr ''webhook'')]]),
                              (''connections'', JObj []), (''settings'', JObj [])])
                  (PostOk (Some ''new+''))]\<rparr>)"
proof -
  let ?w = "\<lparr>remote = ex_remote, trace = []\<rparr>"
  let ?new = "''Invoice Sync'' @ '' (restored '' @ api_clock mem_api (remote ?w) @ '')''"
  let ?body = "JObj (clean_workflow_for_api (dict_set ex_payload ''name'' (JStr ?new)))"
  have r: "f_read ex_file = Parsed (JObj ex_payload)" by (simp add: ex_file_def)
  have e: "[''Invoice Sync'' \<mapsto> ''7''] ''Invoice Sync'' = Some ''7''" by simp
  have ne: "''7'' \<noteq> []" by simp
  have b: "?body =
             JObj [(''name'', JStr ''Invoice Sync (restored 20260112_111221)''),
                   (''nodes'', JArr [JObj [(''type'', JStr ''webhook'')]]),
                   (''connections'', JObj []), (''settings'', JObj [])]"
    by (simp add: clean_workflow_for_api_def allowed_fields_def dict_set_def ex_payload_def mem_api_def)
  have p: "api_post mem_api (remote ?w) ?body
             = (PostOk (Some ''new+''), ex_remote @ [(''new+'', ?body)])"
    by (simp add: mem_api_def ex_remote_def)
  from restore_rename_creates_copy[where existing = "[''Invoice Sync'' \<mapsto> ''7'']"
         and name = "''Invoice Sync''" and A = mem_api and w = "?w",
         OF r ex_unwrap ex_name e ne refl refl refl p]
  show ?thesis using b by (simp add: ex_file_def ex_remote_def)
qed

text \<open>
  C8. In the stats that \<open>restore_from_backup\<close> returns, \<open>created\<close>
  counts the results with action \<open>created\<close> or \<open>created_renamed\<close>,
  \<open>updated\<close> those with action \<open>updated\<close> and status
  \<open>success\<close>, \<open>skipped\<close> those with status \<open>skipped\<close>,
  and \<open>failed\<close> those with status \<open>failed\<close> or
  \<open>error\<close>.
\<close>

theorem restore_stats_tally:
  assumes "restore_from_backup n A w rglob mode dry_run = Some (st, w')"
  shows "created st = length (filter (\<lambda>r. action r = Some Created \<or> action r = Some CreatedRenamed) (results st)) \<and>
         updated st = length (filter (\<lambda>r. action r = Some Updated \<and> status r = Success) (results st)) \<and>
         skipped st = length (filter (\<lambda>r. status r = Skipped) (results st)) \<and>
         failed st = length (filter (\<lambda>r. status r = Failed \<or> status r = Error) (results st))"
proof -
  let ?st0 = "\<lparr>total = length (find_backup_files rglob), created = 0, updated = 0, skipped = 0,
                failed = 0, results = []\<rparr>"
  have t0: "tallied ?st0" by (simp add: tallied_def)
  have "tallied st"
  proof (cases "length (find_backup_files rglob) = 0 \<or> dry_run")
    case True
    with assms have "st = ?st0"
      by (auto simp: restore_from_backup_def Let_def split: if_splits)
    with t0 show ?thesis by simp
  next
    case False
    with assms obtain existing w1 where
      "restore_loop A w1 (find_backup_files rglob) existing mode ?st0 = (st, w')"
      by (auto simp: restore_from_backup_def Let_def split: option.splits if_splits)
    from restore_loop_tallied[OF t0 this] show ?thesis .
  qed
  then show ?thesis by (simp add: tallied_def)
qed

theorem restore_stats_tally_witness:
  "restore_from_backup (Suc 0) mem_api \<lparr>remote = ex_remote, trace = []\<rparr>
       [ex_index, ex_file, ex_broken] ''skip'' False =
     Some (\<lparr>total = 2, created = 0, updated = 0, skipped = 1, failed = 1,
            results = [\<lparr>r_file = ''Broken.json'', status = Error, action = Some Exception,
                        workflow_id = None\<rparr>,
                       \<lparr>r_file = ''Invoice Sync.json'', status = Skipped, action = Some Exists,
                        workflow_id = Some ''7''\<rparr>]\<rparr>,
           \<lparr>remote = ex_remote,
            trace = [GetEv \<lparr>p_limit = 100, p_cursor = None\<rparr>
                       (GetPage (Some [\<lparr>wf_id = Some ''7'', wf_name = Some ''Invoice Sync'',
                                        isArchived = None, tags = None\<rparr>]) None)]\<rparr>) \<and>
   length (filter (\<lambda>r. status r = Skipped)
             [\<lparr>r_file = ''Broken.json'', status = Error, action = Some Exception, workflow_id = None\<rparr>,
              \<lparr>r_file = ''Invoice Sync.json'', status = Skipped, action = Some Exists,
               workflow_id = Some ''7''\<rparr>]) = 1 \<and>
   length (filter (\<lambda>r. status r = Failed \<or> status r = Error)
             [\<lparr>r_file = ''Broken.json'', status = Error, action = Some Exception, workflow_id = None\<rparr>,
              \<lparr>r_file = ''Invoice Sync.json'', status = Skipped, action = Some Exists,
               workflow_id = Some ''7''\<rparr>]) = 1"
  using restore_stats_tally[OF ex_run] ex_run by simp

text \<open>
  C9. When handling a file raises, \<open>restore_workflow\<close> returns the record with
  status \<open>error\<close> and action \<open>exception\<close> and issues no request.
  The loop of \<open>restore_from_backup\<close> records it, counts it as failed, and goes
  on with the remaining files from the same state; every file of the batch gets its
  record, in order.
\<close>

theorem malformed_file_does_not_abort:
  assumes "raises file_path existing"
      and "restore_loop A w before existing mode st = (st1, w1)"
      and "restore_loop A w (before @ file_path # rest) existing mode st = (st', w')"
  shows "restore_workflow A w1 file_path existing mode =
           (\<lparr>r_file = f_name file_path, status = Error, action = Some Exception,
             workflow_id = None\<rparr>, w1) \<and>
         restore_loop A w1 rest existing mode
           (st1\<lparr>results := results st1 @
                    [\<lparr>r_file = f_name file_path, status = Error, action = Some Exception,
                      workflow_id = None\<rparr>],
                failed := failed st1 + 1\<rparr>) = (st', w') \<and>
         map r_file (results st') = map r_file (results st) @ map f_name (before @ file_path # rest)"
proof -
  have r: "restore_workflow A w1 file_path existing mode = (exception_result file_path, w1)"
    using assms(1) by (rule restore_workflow_raises)
  have u: "update_counters (st1\<lparr>results := results st1 @ [exception_result file_path]\<rparr>)
             (exception_result file_path)
           = st1\<lparr>results := results st1 @ [exception_result file_path], failed := failed st1 + 1\<rparr>"
    by (simp add: update_counters_def exception_result_def)
  have "restore_loop A w (before @ file_path # rest) existing mode st =
        restore_loop A w1 rest existing mode
          (st1\<lparr>results := results st1 @ [exception_result file_path], failed := failed st1 + 1\<rparr>)"
    by (simp add: restore_loop_append assms(2) r u)
  with assms(3) r restore_loop_files[OF assms(3)] show ?thesis
    by (simp add: exception_result_def)
qed

theorem malformed_file_does_not_abort_witness:
  "raises ex_broken [''Invoice Sync'' \<mapsto> ''7''] \<and>
   restore_workflow mem_api \<lparr>remote = ex_remote, trace = []\<rparr> ex_broken
       [''Invoice Sync'' \<mapsto> ''7''] ''skip'' =
     (\<lparr>r_file = ''Broken.json'', status = Error, action = Some Exception, workflow_id = None\<rparr>,
      \<lparr>remote = ex_remote, trace = []\<rparr>) \<and>
   restore_loop mem_api \<lparr>remote = ex_remote, trace = []\<rparr> [ex_broken, ex_file]
       [''Invoice Sync'' \<mapsto> ''7''] ''skip''
       \<lparr>total = 2, created = 0, updated = 0, skipped = 0, failed = 0, results = []\<rparr> =
     (\<lparr>total = 2, created = 0, updated = 0, skipped = 1, failed = 1,
       results = [\<lparr>r_file = ''Broken.json'', status = Error, action = Some Exception,
                   workflow_id = None\<rparr>,
                  \<lparr>r_file = ''Invoice Sync.json'', status = Skipped, action = Some Exists,
                   workflow_id = Some ''7''\<rparr>]\<rparr>,
      \<lparr>remote = ex_remote, trace = []\<rparr>)"
proof -
  let ?w = "\<lparr>remote = ex_remote, trace = []\<rparr>"
  let ?e = "[''Invoice Sync'' \<mapsto> ''7'']"
  let ?st = "\<lparr>total = 2, created = 0, updated = 0, skipped = 0, failed = 0, results = []\<rparr>"
  have b: "restore_loop mem_api ?w [] ?e ''skip'' ?st = (?st, ?w)" by simp
  have l: "restore_loop mem_api ?w ([] @ ex_broken # [ex_file]) ?e ''skip'' ?st =
     (\<lparr>total = 2, created = 0, updated = 0, skipped = 1, failed = 1,
       results = [\<lparr>r_file = ''Broken.json'', status = Error, action = Some Exception,
                   workflow_id = None\<rparr>,
                  \<lparr>r_file = ''Invoice Sync.json'', status = Skipped, action = Some Exists,
                   workflow_id = Some ''7''\<rparr>]\<rparr>, ?w)"
    using ex_loop by simp
  from malformed_file_does_not_abort[OF ex_raises[of ?e] b l]
  have "restore_workflow mem_api ?w ex_broken ?e ''skip'' =
     (\<lparr>r_file = f_name ex_broken, status = Error, action = Some Exception, workflow_id = None\<rparr>, ?w)"
    by blast
  then show ?thesis
    using ex_raises[of ?e] ex_loop by (simp add: ex_broken_name)
qed

end
